theory Spec2Isabelle
  imports Complex_Main "HOL-Library.AList" "HOL-Library.Multiset"
begin

section \<open>Slot prioritization simulator: the scoring and selection engine of App.jsx\<close>

text \<open>
  The development embeds the functions of \<^verbatim>\<open>src/App.jsx\<close> that decide which provider
  owns a slot and how one simulation iteration plans its three selections.

  Conventions of the embedding.
  \<^item> A JavaScript number is a \<open>number\<close>: a real, or one of the two infinities. IEEE
    rounding is not modelled, and neither is NaN: the weights come from a range input
    and every other operand is an integer or a finite sum.
  \<^item> A React state variable is a field of \<open>app_state\<close>; a function of the component
    reads the state of the render it closes over, so it takes that state as argument.
  \<^item> A JavaScript object used as a dictionary is an association list with distinct
    keys, read with \<open>map_of\<close> and written with \<open>AList.update\<close>.
  \<^item> Reading a property of \<open>undefined\<close> throws; the model returns \<open>Inl TypeError\<close>.
  \<^item> \<open>Math.random()\<close> is an argument: the value the call returns.
\<close>

subsection \<open>Numbers\<close>

datatype error = TypeError

datatype number = NegInfinity | Fin real | Infinity

fun num_le :: "number \<Rightarrow> number \<Rightarrow> bool" where
  "num_le NegInfinity b = True"
| "num_le (Fin a) NegInfinity = False"
| "num_le (Fin a) (Fin b) = (a \<le> b)"
| "num_le (Fin a) Infinity = True"
| "num_le Infinity Infinity = True"
| "num_le Infinity b = False"

definition num_max :: "number \<Rightarrow> number \<Rightarrow> number" where
  "num_max a b = (if num_le a b then b else a)"

text \<open>\<^verbatim>\<open>Math.max(...xs)\<close>; with no argument it is \<open>-Infinity\<close>.\<close>

definition Math_max :: "number list \<Rightarrow> number" where
  "Math_max xs = foldl num_max NegInfinity xs"

text \<open>\<^verbatim>\<open>Math.floor(num * 100) / 100\<close> (lines 78-80, and inlined at lines 132, 174, 238).\<close>

fun truncateToTwoDecimals :: "number \<Rightarrow> number" where
  "truncateToTwoDecimals (Fin r) = Fin (of_int \<lfloor>r * 100\<rfloor> / 100)"
| "truncateToTwoDecimals Infinity = Infinity"
| "truncateToTwoDecimals NegInfinity = NegInfinity"

subsection \<open>Strings: number to string, split, parseInt\<close>

definition digit_char :: "nat \<Rightarrow> char" where
  "digit_char d = char_of (48 + d)"

text \<open>Decimal rendering of a non-negative integer, as a template literal does it.\<close>

function toString :: "nat \<Rightarrow> string" where
  "toString n = (if n < 10 then [digit_char n] else toString (n div 10) @ [digit_char (n mod 10)])"
  by pat_completeness auto
termination
  by (relation "measure (\<lambda>n. n)") auto

declare toString.simps [simp del]

definition padStart :: "nat \<Rightarrow> char \<Rightarrow> string \<Rightarrow> string" where
  "padStart n c s = replicate (n - length s) c @ s"

text \<open>\<^verbatim>\<open>s.split(c)\<close> for a one-character separator.\<close>

fun split :: "char \<Rightarrow> string \<Rightarrow> string list" where
  "split c [] = [[]]"
| "split c (x # xs) =
     (if x = c then [] # split c xs
      else (case split c xs of [] \<Rightarrow> [[x]] | w # ws \<Rightarrow> (x # w) # ws))"

definition isWhiteSpace :: "char \<Rightarrow> bool" where
  "isWhiteSpace c = (of_char c \<in> {9::nat, 10, 11, 12, 13, 32, 160})"

definition digitValue :: "char \<Rightarrow> nat option" where
  "digitValue c =
     (let k = (of_char c :: nat) in
      if 48 \<le> k \<and> k \<le> 57 then Some (k - 48)
      else if 97 \<le> k \<and> k \<le> 122 then Some (k - 87)
      else if 65 \<le> k \<and> k \<le> 90 then Some (k - 55)
      else None)"

definition isDigitOf :: "nat \<Rightarrow> char \<Rightarrow> bool" where
  "isDigitOf radix c = (case digitValue c of None \<Rightarrow> False | Some d \<Rightarrow> d < radix)"

definition digitsValue :: "nat \<Rightarrow> string \<Rightarrow> nat" where
  "digitsValue radix ds =
     foldl (\<lambda>acc c. acc * radix + (case digitValue c of None \<Rightarrow> 0 | Some d \<Rightarrow> d)) 0 ds"

text \<open>
  \<^verbatim>\<open>parseInt(s)\<close> with no radix: leading white space is skipped, a sign is read, a
  \<^verbatim>\<open>0x\<close> prefix selects radix 16, and the longest prefix of digits is the value; with no
  digit the result is NaN, here \<open>None\<close>. (Integers are not rounded to doubles.)
\<close>

definition parseInt :: "string \<Rightarrow> int option" where
  "parseInt s =
     (let s1 = dropWhile isWhiteSpace s;
          neg = (s1 \<noteq> [] \<and> hd s1 = CHR ''-'');
          s2 = (if s1 \<noteq> [] \<and> (hd s1 = CHR ''-'' \<or> hd s1 = CHR ''+'') then tl s1 else s1);
          hex = (length s2 \<ge> 2 \<and> hd s2 = CHR ''0'' \<and> (s2 ! 1 = CHR ''x'' \<or> s2 ! 1 = CHR ''X''));
          radix = (if hex then 16 else 10);
          s3 = (if hex then drop 2 s2 else s2);
          ds = takeWhile (isDigitOf radix) s3
      in if ds = [] then None
         else Some ((if neg then - 1 else 1) * int (digitsValue radix ds)))"

text \<open>
  \<^verbatim>\<open>slotId.split('-').reduce((acc, val) => acc + parseInt(val || 0), 0)\<close>: an empty
  component is falsy, so \<^verbatim>\<open>parseInt(0)\<close> is 0; a NaN makes the sum NaN (\<open>None\<close>).
\<close>

definition slotHash :: "string \<Rightarrow> int option" where
  "slotHash slotId =
     foldl (\<lambda>acc val. case acc of None \<Rightarrow> None
              | Some a \<Rightarrow> (case parseInt (if val = [] then ''0'' else val) of
                            None \<Rightarrow> None | Some v \<Rightarrow> Some (a + v)))
       (Some 0) (split CHR ''-'' slotId)"

subsection \<open>Slots and providers\<close>

record time_slot =
  slot_id :: string
  time :: string

definition mkSlotId :: "nat \<Rightarrow> nat \<Rightarrow> string" where
  "mkSlotId hour minute = toString hour @ ''-'' @ toString minute"

definition mkSlot :: "nat \<Rightarrow> nat \<Rightarrow> time_slot" where
  "mkSlot hour minute =
     \<lparr>slot_id = mkSlotId hour minute,
      time = padStart 2 CHR ''0'' (toString hour) @ '':'' @ padStart 2 CHR ''0'' (toString minute)\<rparr>"

text \<open>The two loops of \<^verbatim>\<open>generateTimeSlots\<close> (the locale-formatted display time is left out).\<close>

function minute_loop :: "nat \<Rightarrow> nat \<Rightarrow> time_slot list \<Rightarrow> time_slot list" where
  "minute_loop hour minute slots =
     (if minute < 60 then minute_loop hour (minute + 10) (slots @ [mkSlot hour minute])
      else slots)"
  by pat_completeness auto
termination
  by (relation "measure (\<lambda>(hour, minute, slots). 60 - minute)") auto

declare minute_loop.simps [simp del]

function hour_loop :: "nat \<Rightarrow> time_slot list \<Rightarrow> time_slot list" where
  "hour_loop hour slots =
     (if hour < 13 then hour_loop (hour + 1) (minute_loop hour 0 slots) else slots)"
  by pat_completeness auto
termination
  by (relation "measure (\<lambda>(hour, slots). 13 - hour)") auto

declare hour_loop.simps [simp del]

definition generateTimeSlots :: "time_slot list" where
  "generateTimeSlots = hour_loop 10 []"

definition timeSlots :: "time_slot list" where
  "timeSlots = generateTimeSlots"

record provider =
  provider_id :: int
  name :: string
  licenses :: int

definition initialProviders :: "provider list" where
  "initialProviders =
     [\<lparr>provider_id = 1, name = ''NP Smith'', licenses = 3\<rparr>,
      \<lparr>provider_id = 2, name = ''NP Johnson'', licenses = 2\<rparr>,
      \<lparr>provider_id = 3, name = ''NP Williams'', licenses = 5\<rparr>,
      \<lparr>provider_id = 4, name = ''NP Brown'', licenses = 1\<rparr>,
      \<lparr>provider_id = 5, name = ''NP Davis'', licenses = 4\<rparr>,
      \<lparr>provider_id = 6, name = ''NP Anderson'', licenses = 10\<rparr>,
      \<lparr>provider_id = 7, name = ''NP Taylor'', licenses = 15\<rparr>]"

subsection \<open>Component state\<close>

type_synonym slot_marks = "(string \<times> bool) list"
type_synonym marks = "(int \<times> slot_marks) list"

record app_state =
  providers :: "provider list"
  selectedSlots :: marks
  newlySelectedSlots :: marks
  pendingSelectionSlots :: marks
  isPlaying :: bool
  isPaused :: bool
  weight1 :: real
  weight2 :: real
  simulationInProgress :: bool

definition initialState :: app_state where
  "initialState =
     \<lparr>providers = initialProviders, selectedSlots = [], newlySelectedSlots = [],
      pendingSelectionSlots = [], isPlaying = False, isPaused = False,
      weight1 = 8 / 10, weight2 = 2 / 10, simulationInProgress = False\<rparr>"

text \<open>\<^verbatim>\<open>[...providers].sort((a, b) => a.licenses - b.licenses)\<close>; the sort is stable.\<close>

definition sortedProviders :: "app_state \<Rightarrow> provider list" where
  "sortedProviders st = sort_key licenses (providers st)"

text \<open>\<^verbatim>\<open>m[providerId]?.[slotId] || false\<close> on a two-level dictionary.\<close>

definition lookupMark :: "marks \<Rightarrow> int \<Rightarrow> string \<Rightarrow> bool" where
  "lookupMark m providerId slotId =
     (case map_of m providerId of None \<Rightarrow> False
      | Some row \<Rightarrow> (case map_of row slotId of None \<Rightarrow> False | Some b \<Rightarrow> b))"

definition isSlotSelected :: "app_state \<Rightarrow> int \<Rightarrow> string \<Rightarrow> bool" where
  "isSlotSelected st providerId slotId = lookupMark (selectedSlots st) providerId slotId"

definition isNewlySelected :: "app_state \<Rightarrow> int \<Rightarrow> string \<Rightarrow> bool" where
  "isNewlySelected st providerId slotId = lookupMark (newlySelectedSlots st) providerId slotId"

definition isPendingSelection :: "app_state \<Rightarrow> int \<Rightarrow> string \<Rightarrow> bool" where
  "isPendingSelection st providerId slotId =
     lookupMark (pendingSelectionSlots st) providerId slotId"

text \<open>\<^verbatim>\<open>Object.values(m[providerId] || {}).filter(Boolean).length\<close>.\<close>

definition countSelected :: "marks \<Rightarrow> int \<Rightarrow> nat" where
  "countSelected m providerId =
     length (filter (\<lambda>b. b)
       (map snd (case map_of m providerId of None \<Rightarrow> [] | Some row \<Rightarrow> row)))"

definition getTotalSelectedSlots :: "app_state \<Rightarrow> int \<Rightarrow> nat" where
  "getTotalSelectedSlots st providerId = countSelected (selectedSlots st) providerId"

subsection \<open>Score function\<close>

definition calculateAvailabilityScore :: "app_state \<Rightarrow> int \<Rightarrow> int \<Rightarrow> number" where
  "calculateAvailabilityScore st providerId lic =
     (if lic = 0 then Infinity
      else
        let totalSlots = int (length timeSlots);
            selectedSlotsCount = int (getTotalSelectedSlots st providerId);
            slotsRemaining = totalSlots - selectedSlotsCount;
            x = real_of_int slotsRemaining / real_of_int totalSlots;
            exponentialTerm = exp (- (12 / 10) * (real_of_int lic - 1))
        in Fin (weight1 st * x + weight2 st * exponentialTerm))"

subsection \<open>Commitment store: manual toggle\<close>

definition toggleSlot :: "app_state \<Rightarrow> int \<Rightarrow> string \<Rightarrow> app_state" where
  "toggleSlot st providerId slotId =
     (let prev = selectedSlots st;
          providerSlots = (case map_of prev providerId of None \<Rightarrow> [] | Some row \<Rightarrow> row);
          isSelected = (case map_of providerSlots slotId of None \<Rightarrow> False | Some b \<Rightarrow> b)
      in st\<lparr>selectedSlots :=
              AList.update providerId (AList.update slotId (\<not> isSelected) providerSlots) prev\<rparr>)"

subsection \<open>Assignment resolver\<close>

record scored =
  score_id :: int
  score :: number

text \<open>JavaScript's remainder takes the sign of the dividend.\<close>

definition js_rem :: "int \<Rightarrow> int \<Rightarrow> int" where
  "js_rem a b = sgn a * (\<bar>a\<bar> mod \<bar>b\<bar>)"

definition maxScoreProvidersOf :: "scored list \<Rightarrow> scored list" where
  "maxScoreProvidersOf providerScores =
     (let maxScore = Math_max (map score providerScores)
      in filter (\<lambda>p. score p = maxScore) providerScores)"

text \<open>
  Lines 140-152 (repeated at 178-188 and 242-252): the providers at the maximal score,
  the single one if there is one, else the tie-break on the slot identifier. An index
  that is NaN (a slot identifier with a component that is no number, or no tied
  provider at all) or negative reads \<open>undefined\<close>, whose \<^verbatim>\<open>.id\<close> throws.
\<close>

definition selectByMaxScore :: "string \<Rightarrow> scored list \<Rightarrow> error + int" where
  "selectByMaxScore slotId providerScores =
     (let maxScoreProviders = maxScoreProvidersOf providerScores
      in if length maxScoreProviders = 1 then Inr (score_id (maxScoreProviders ! 0))
         else
           let sortedTiedProviders = sort_key score_id maxScoreProviders
           in (case slotHash slotId of
                 None \<Rightarrow> Inl TypeError
               | Some h \<Rightarrow>
                   if sortedTiedProviders = [] then Inl TypeError
                   else
                     let randomIndex = js_rem h (int (length sortedTiedProviders))
                     in if 0 \<le> randomIndex \<and> randomIndex < int (length sortedTiedProviders)
                        then Inr (score_id (sortedTiedProviders ! nat randomIndex))
                        else Inl TypeError))"

definition availableProviders :: "app_state \<Rightarrow> string \<Rightarrow> provider list" where
  "availableProviders st slotId =
     filter (\<lambda>p. \<not> isSlotSelected st (provider_id p) slotId) (sortedProviders st)"

definition roundedScore :: "app_state \<Rightarrow> provider \<Rightarrow> number" where
  "roundedScore st p =
     truncateToTwoDecimals (calculateAvailabilityScore st (provider_id p) (licenses p))"

definition providerScores :: "app_state \<Rightarrow> string \<Rightarrow> scored list" where
  "providerScores st slotId =
     map (\<lambda>p. \<lparr>score_id = provider_id p, score = roundedScore st p\<rparr>)
       (availableProviders st slotId)"

text \<open>The result \<open>Inr None\<close> is the source's \<^verbatim>\<open>null\<close>.\<close>

definition getMaxScoreProviderForSlot :: "app_state \<Rightarrow> string \<Rightarrow> error + int option" where
  "getMaxScoreProviderForSlot st slotId =
     (if length (availableProviders st slotId) = 0 then Inr None
      else (case selectByMaxScore slotId (providerScores st slotId) of
              Inl e \<Rightarrow> Inl e
            | Inr i \<Rightarrow> Inr (Some i)))"

subsection \<open>Highlighted slots\<close>

record highlighted =
  slotId :: string
  providerId :: int
  timeIndex :: int

fun findIndexFrom :: "('a \<Rightarrow> bool) \<Rightarrow> 'a list \<Rightarrow> int \<Rightarrow> int" where
  "findIndexFrom P [] i = - 1"
| "findIndexFrom P (x # xs) i = (if P x then i else findIndexFrom P xs (i + 1))"

definition findIndex :: "('a \<Rightarrow> bool) \<Rightarrow> 'a list \<Rightarrow> int" where
  "findIndex P xs = findIndexFrom P xs 0"

text \<open>
  \<^verbatim>\<open>timeSlots.forEach\<close> with a callback that pushes an entry, returns without pushing
  (\<open>Inr None\<close>), or throws, which ends the loop.
\<close>

fun forEachSlot :: "(time_slot \<Rightarrow> error + highlighted option) \<Rightarrow> time_slot list
    \<Rightarrow> error + highlighted list" where
  "forEachSlot f [] = Inr []"
| "forEachSlot f (slot # rest) =
     (case f slot of
        Inl e \<Rightarrow> Inl e
      | Inr r \<Rightarrow>
          (case forEachSlot f rest of
             Inl e \<Rightarrow> Inl e
           | Inr hs \<Rightarrow> Inr ((case r of None \<Rightarrow> [] | Some h \<Rightarrow> [h]) @ hs)))"

text \<open>The score as lines 167-175 compute it: on a snapshot, and with no test of \<^verbatim>\<open>licenses === 0\<close>.\<close>

definition snapshotScore :: "app_state \<Rightarrow> marks \<Rightarrow> provider \<Rightarrow> scored" where
  "snapshotScore st currentSelectedSlots p =
     (let totalSlots = int (length timeSlots);
          selectedCount = int (countSelected currentSelectedSlots (provider_id p));
          slotsRemaining = totalSlots - selectedCount;
          x = real_of_int slotsRemaining / real_of_int totalSlots;
          exponentialTerm = exp (- (12 / 10) * (real_of_int (licenses p) - 1));
          rawScore = Fin (weight1 st * x + weight2 st * exponentialTerm);
          roundedScore = truncateToTwoDecimals rawScore
      in \<lparr>score_id = provider_id p, score = roundedScore\<rparr>)"

definition highlightSlot :: "app_state \<Rightarrow> marks \<Rightarrow> time_slot \<Rightarrow> error + highlighted option" where
  "highlightSlot st currentSelectedSlots slot =
     (let availableProviders =
            filter (\<lambda>p. \<not> lookupMark currentSelectedSlots (provider_id p) (slot_id slot))
              (sortedProviders st)
      in if length availableProviders = 0 then Inr None
         else
           (case selectByMaxScore (slot_id slot)
                   (map (snapshotScore st currentSelectedSlots) availableProviders) of
              Inl e \<Rightarrow> Inl e
            | Inr selectedProviderId \<Rightarrow>
                Inr (Some \<lparr>slotId = slot_id slot, providerId = selectedProviderId,
                           timeIndex = findIndex (\<lambda>s. slot_id s = slot_id slot) timeSlots\<rparr>)))"

definition getHighlightedSlots :: "app_state \<Rightarrow> marks \<Rightarrow> error + highlighted list" where
  "getHighlightedSlots st currentSelectedSlots =
     (case forEachSlot (highlightSlot st currentSelectedSlots) timeSlots of
        Inl e \<Rightarrow> Inl e
      | Inr highlightedSlots \<Rightarrow> Inr (sort_key timeIndex highlightedSlots))"

definition currentHighlight :: "app_state \<Rightarrow> time_slot \<Rightarrow> error + highlighted option" where
  "currentHighlight st slot =
     (case getMaxScoreProviderForSlot st (slot_id slot) of
        Inl e \<Rightarrow> Inl e
      | Inr None \<Rightarrow> Inr None
      | Inr (Some maxScoreProviderId) \<Rightarrow>
          Inr (Some \<lparr>slotId = slot_id slot, providerId = maxScoreProviderId,
                     timeIndex = findIndex (\<lambda>s. slot_id s = slot_id slot) timeSlots\<rparr>))"

definition getCurrentHighlighted :: "app_state \<Rightarrow> error + highlighted list" where
  "getCurrentHighlighted st =
     (case forEachSlot (currentHighlight st) timeSlots of
        Inl e \<Rightarrow> Inl e
      | Inr highlighted \<Rightarrow> Inr (sort_key timeIndex highlighted))"

subsection \<open>Sampling from a band of the highlighted slots\<close>

text \<open>\<^verbatim>\<open>xs.slice(start, end)\<close> for integer arguments.\<close>

definition slice :: "int \<Rightarrow> int \<Rightarrow> 'a list \<Rightarrow> 'a list" where
  "slice start end xs =
     (let n = int (length xs);
          s = (if start < 0 then max (n + start) 0 else min start n);
          e = (if end < 0 then max (n + end) 0 else min end n)
      in take (nat (e - s)) (drop (nat s) xs))"

text \<open>
  \<^verbatim>\<open>xs[Math.floor(Math.random() * xs.length)]\<close> followed by the check
  \<^verbatim>\<open>getMaxScoreProviderForSlot(randomSlot.slotId) === randomSlot.providerId\<close>, which reads
  the store of the current render. \<open>rnd\<close> is the value of \<^verbatim>\<open>Math.random()\<close>.
\<close>

definition pickVerified :: "app_state \<Rightarrow> highlighted list \<Rightarrow> real \<Rightarrow> error + highlighted option" where
  "pickVerified st candidates rnd =
     (let i = \<lfloor>rnd * real (length candidates)\<rfloor>
      in if 0 \<le> i \<and> i < int (length candidates) then
           (let randomSlot = candidates ! nat i
            in case getMaxScoreProviderForSlot st (slotId randomSlot) of
                 Inl e \<Rightarrow> Inl e
               | Inr r \<Rightarrow>
                   if r = Some (providerId randomSlot) then Inr (Some randomSlot)
                   else Inr None)
         else Inl TypeError)"

definition selectRandomSlotFromRange ::
    "app_state \<Rightarrow> highlighted list \<Rightarrow> real \<Rightarrow> real \<Rightarrow> real \<Rightarrow> error + highlighted option" where
  "selectRandomSlotFromRange st highlightedSlots startPercent endPercent rnd =
     (if length highlightedSlots = 0 then Inr None
      else
        let start = \<lceil>real (length highlightedSlots) * startPercent\<rceil>;
            end = \<lceil>real (length highlightedSlots) * endPercent\<rceil>
        in if end \<le> start then Inr None
           else
             let rangeSlots = slice start end highlightedSlots
             in if length rangeSlots = 0 then Inr None
                else pickVerified st rangeSlots rnd)"

definition selectRandomSlotFromFirstPercent ::
    "app_state \<Rightarrow> highlighted list \<Rightarrow> real \<Rightarrow> real \<Rightarrow> error + highlighted option" where
  "selectRandomSlotFromFirstPercent st highlightedSlots percent rnd =
     (if length highlightedSlots = 0 then Inr None
      else
        let firstNPercent = max 1 \<lceil>real (length highlightedSlots) * percent\<rceil>;
            firstNSlots = slice 0 firstNPercent highlightedSlots
        in if length firstNSlots = 0 then Inr None
           else pickVerified st firstNSlots rnd)"

subsection \<open>One simulation iteration: the three selections\<close>

text \<open>\<^verbatim>\<open>if (!m[p]) m[p] = {}; m[p][s] = true\<close>.\<close>

definition setMark :: "marks \<Rightarrow> int \<Rightarrow> string \<Rightarrow> marks" where
  "setMark m p s =
     AList.update p (AList.update s True (case map_of m p of None \<Rightarrow> [] | Some row \<Rightarrow> row)) m"

definition markSelection :: "marks \<Rightarrow> highlighted option \<Rightarrow> marks" where
  "markSelection m sel =
     (case sel of None \<Rightarrow> m | Some slot \<Rightarrow> setMark m (providerId slot) (slotId slot))"

text \<open>The local variables of \<^verbatim>\<open>runSimulationIteration\<close> once the three slots are chosen.\<close>

record iteration =
  highlightedSlots :: "highlighted list"
  slot1 :: highlighted
  workingState1 :: marks
  highlightedAfter1 :: "highlighted list"
  slot2 :: "highlighted option"
  workingState2 :: marks
  highlightedAfter2 :: "highlighted list"
  slot3 :: "highlighted option"

text \<open>
  Lines 362-387, after \<open>slot1\<close> is chosen. \<open>rnd2\<close> and \<open>rnd3\<close> are the values of
  \<^verbatim>\<open>Math.random()\<close> in the second and the third selection.
\<close>

definition planAfterFirst ::
    "app_state \<Rightarrow> highlighted list \<Rightarrow> highlighted \<Rightarrow> real \<Rightarrow> real \<Rightarrow> error + iteration" where
  "planAfterFirst st hs s1 rnd2 rnd3 =
     (let ws1 = setMark (selectedSlots st) (providerId s1) (slotId s1)
      in case getHighlightedSlots st ws1 of
           Inl e \<Rightarrow> Inl e
         | Inr after1 \<Rightarrow>
            (case (if length after1 > 0
                   then selectRandomSlotFromRange st after1 (2 / 10) (5 / 10) rnd2
                   else Inr None) of
               Inl e \<Rightarrow> Inl e
             | Inr s2 \<Rightarrow>
                (let ws2 = markSelection ws1 s2
                 in case (if s2 \<noteq> None then getHighlightedSlots st ws2 else Inr []) of
                      Inl e \<Rightarrow> Inl e
                    | Inr after2 \<Rightarrow>
                       (case (if length after2 > 0
                              then selectRandomSlotFromRange st after2 (5 / 10) (7 / 10) rnd3
                              else Inr None) of
                          Inl e \<Rightarrow> Inl e
                        | Inr s3 \<Rightarrow>
                            Inr \<lparr>highlightedSlots = hs, slot1 = s1, workingState1 = ws1,
                                 highlightedAfter1 = after1, slot2 = s2, workingState2 = ws2,
                                 highlightedAfter2 = after2, slot3 = s3\<rparr>))))"

text \<open>
  The synchronous part of \<^verbatim>\<open>runSimulationIteration\<close> (lines 336-403): the state it
  leaves and, when the iteration goes on to commit, its local variables. The commits
  themselves run later, from timers.
\<close>

definition runSimulationIteration ::
    "app_state \<Rightarrow> real \<Rightarrow> real \<Rightarrow> real \<Rightarrow> error + app_state \<times> iteration option" where
  "runSimulationIteration st rnd1 rnd2 rnd3 =
     (if simulationInProgress st then Inr (st, None)
      else
        let cleared = st\<lparr>newlySelectedSlots := [], pendingSelectionSlots := []\<rparr>
        in case getCurrentHighlighted st of
             Inl e \<Rightarrow> Inl e
           | Inr hs \<Rightarrow>
              if length hs = 0 then Inr (cleared\<lparr>simulationInProgress := False\<rparr>, None)
              else
                (case selectRandomSlotFromFirstPercent st hs (2 / 10) rnd1 of
                   Inl e \<Rightarrow> Inl e
                 | Inr None \<Rightarrow> Inr (cleared\<lparr>simulationInProgress := False\<rparr>, None)
                 | Inr (Some s1) \<Rightarrow>
                    (case planAfterFirst st hs s1 rnd2 rnd3 of
                       Inl e \<Rightarrow> Inl e
                     | Inr it \<Rightarrow>
                        (let pending =
                               markSelection
                                 (markSelection (setMark [] (providerId s1) (slotId s1))
                                    (slot2 it))
                                 (slot3 it)
                         in Inr (cleared\<lparr>simulationInProgress := True,
                                         pendingSelectionSlots := pending\<rparr>, Some it)))))"

subsection \<open>Buttons and weight sliders\<close>

definition handlePlay :: "app_state \<Rightarrow> app_state" where
  "handlePlay st = st\<lparr>isPlaying := True, isPaused := False\<rparr>"

definition handlePause :: "app_state \<Rightarrow> app_state" where
  "handlePause st = st\<lparr>isPaused := True\<rparr>"

definition handleEnd :: "app_state \<Rightarrow> app_state" where
  "handleEnd st =
     st\<lparr>isPlaying := False, isPaused := False, selectedSlots := [],
        newlySelectedSlots := [], pendingSelectionSlots := []\<rparr>"

definition handleWeight1Change :: "app_state \<Rightarrow> real \<Rightarrow> app_state" where
  "handleWeight1Change st newWeight1 =
     (let clampedWeight1 = max (1 / 10) (min (9 / 10) newWeight1);
          newWeight2 = 1 - clampedWeight1
      in st\<lparr>weight1 := clampedWeight1, weight2 := newWeight2,
            selectedSlots := [], newlySelectedSlots := []\<rparr>)"

definition handleWeight2Change :: "app_state \<Rightarrow> real \<Rightarrow> app_state" where
  "handleWeight2Change st newWeight2 =
     (let clampedWeight2 = max (1 / 10) (min (9 / 10) newWeight2);
          newWeight1 = 1 - clampedWeight2
      in st\<lparr>weight1 := newWeight1, weight2 := clampedWeight2,
            selectedSlots := [], newlySelectedSlots := []\<rparr>)"


section \<open>Notions of the specification and sample states\<close>

text \<open>The weights of the data model: each in \<open>[0.1, 0.9]\<close>.\<close>

definition weightsInRange :: "app_state \<Rightarrow> bool" where
  "weightsInRange st =
     (1 / 10 \<le> weight1 st \<and> weight1 st \<le> 9 / 10 \<and> 1 / 10 \<le> weight2 st \<and> weight2 st \<le> 9 / 10)"


definition roundToNearest :: "real \<Rightarrow> real" where
  "roundToNearest r = real_of_int (round (r * 100)) / 100"

text \<open>The rank fraction \<open>j / n\<close> of position \<open>j\<close> among \<open>n\<close> entries lies in \<open>[lo, hi)\<close>.\<close>

definition inBand :: "nat \<Rightarrow> nat \<Rightarrow> real \<Rightarrow> real \<Rightarrow> bool" where
  "inBand j n lo hi = (j < n \<and> lo \<le> real j / real n \<and> real j / real n < hi)"

text \<open>
  The score of a provider with a capacity other than 0, as a real: the timetable has 18
  slots.
\<close>

definition rawScore :: "app_state \<Rightarrow> provider \<Rightarrow> real" where
  "rawScore st p =
     weight1 st * ((18 - real (getTotalSelectedSlots st (provider_id p))) / 18)
     + weight2 st * exp (- ((6 / 5) * (real_of_int (licenses p) - 1)))"

text \<open>Provider 4 has ticked the first slot.\<close>

definition oneCommitted :: app_state where
  "oneCommitted = toggleSlot initialState 4 ''10-0''"

text \<open>Every provider holds the first slot.\<close>

definition allCommitted :: app_state where
  "allCommitted =
     initialState\<lparr>selectedSlots :=
       [(1, [(''10-0'', True)]), (2, [(''10-0'', True)]), (3, [(''10-0'', True)]),
        (4, [(''10-0'', True)]), (5, [(''10-0'', True)]), (6, [(''10-0'', True)]),
        (7, [(''10-0'', True)])]\<rparr>"

text \<open>
  The slot 10-30 ticked in turn by providers 4, 2, 1, 3, 6 and 5, each the highlighted
  one when it ticks, and then unticked by provider 3: providers 3 and 7 are left, with
  no commitment.
\<close>

definition tieState :: app_state where
  "tieState = foldl (\<lambda>st p. toggleSlot st p ''10-30'') initialState [4, 2, 1, 3, 6, 5, 3]"

text \<open>Provider 4 has ticked the first slot and then the slot 10-40.\<close>

definition twoCommitted :: app_state where
  "twoCommitted = toggleSlot oneCommitted 4 ''10-40''"

text \<open>
  Provider 4 holds the last four slots, provider 2 the slots 12-20 and 12-30 and
  provider 1 the slot 12-20, each ticked when its provider was the highlighted one;
  and the same store with the slot 10-0 added for provider 4.
\<close>

definition staleCheckState :: app_state where
  "staleCheckState =
     foldl (\<lambda>st (p, sl). toggleSlot st p sl) initialState
       [(4, ''12-20''), (2, ''12-20''), (1, ''12-20''), (4, ''12-30''), (2, ''12-30''),
        (4, ''12-40''), (4, ''12-50'')]"

definition staleAfterFirst :: app_state where
  "staleAfterFirst =
     staleCheckState\<lparr>selectedSlots := setMark (selectedSlots staleCheckState) 4 ''10-0''\<rparr>"

text \<open>
  The provider the resolver returns for a slot, and the highlighted list of a state in
  which every slot of the timetable has a provider, \<open>g\<close> giving the provider of
  each slot.
\<close>

definition resolvedProvider :: "app_state \<Rightarrow> string \<Rightarrow> int" where
  "resolvedProvider st sl =
     (case getMaxScoreProviderForSlot st sl of Inr (Some i) \<Rightarrow> i | _ \<Rightarrow> 0)"

definition highlightedList :: "(string \<Rightarrow> int) \<Rightarrow> highlighted list" where
  "highlightedList g =
     map (\<lambda>(i, sl). \<lparr>slotId = sl, providerId = g sl, timeIndex = i\<rparr>)
       [(0, ''10-0''), (1, ''10-10''), (2, ''10-20''), (3, ''10-30''), (4, ''10-40''),
        (5, ''10-50''), (6, ''11-0''), (7, ''11-10''), (8, ''11-20''), (9, ''11-30''),
        (10, ''11-40''), (11, ''11-50''), (12, ''12-0''), (13, ''12-10''), (14, ''12-20''),
        (15, ''12-30''), (16, ''12-40''), (17, ''12-50'')]"

section \<open>Properties\<close>

subsection \<open>The order on numbers\<close>

lemma num_le_refl: "num_le a a"
  by (cases a) auto

lemma num_le_trans: "num_le a b \<Longrightarrow> num_le b c \<Longrightarrow> num_le a c"
  by (cases a; cases b; cases c) auto

lemma num_le_total: "num_le a b \<or> num_le b a"
  by (cases a; cases b) auto

lemma num_le_antisym: "num_le a b \<Longrightarrow> num_le b a \<Longrightarrow> a = b"
  by (cases a; cases b) auto

subsection \<open>The maximum of a list of numbers\<close>

lemma foldl_num_max_ge_init: "num_le a (foldl num_max a xs)"
proof (induction xs arbitrary: a)
  case Nil
  show ?case by (simp add: num_le_refl)
next
  case (Cons x xs)
  have "num_le a (num_max a x)"
    by (simp add: num_max_def num_le_refl)
  then show ?case
    using Cons [of "num_max a x"] by (auto intro: num_le_trans)
qed

lemma foldl_num_max_ge: "x \<in> set xs \<Longrightarrow> num_le x (foldl num_max a xs)"
proof (induction xs arbitrary: a)
  case Nil
  then show ?case by simp
next
  case (Cons y ys)
  show ?case
  proof (cases "x = y")
    case True
    have "num_le y (num_max a y)"
      using num_le_total [of a y] by (auto simp: num_max_def num_le_refl)
    then show ?thesis
      using True foldl_num_max_ge_init [of "num_max a y" ys] by (auto intro: num_le_trans)
  next
    case False
    with Cons show ?thesis by auto
  qed
qed

lemma foldl_num_max_mem: "foldl num_max a xs = a \<or> foldl num_max a xs \<in> set xs"
proof (induction xs arbitrary: a)
  case Nil
  show ?case by simp
next
  case (Cons y ys)
  from Cons [of "num_max a y"] show ?case
    by (auto simp: num_max_def split: if_splits)
qed

lemma Math_max_ge: "x \<in> set xs \<Longrightarrow> num_le x (Math_max xs)"
  by (simp add: Math_max_def foldl_num_max_ge)

lemma Math_max_mem: "xs \<noteq> [] \<Longrightarrow> Math_max xs \<in> set xs"
proof -
  assume ne: "xs \<noteq> []"
  from foldl_num_max_mem [of NegInfinity xs]
  show ?thesis
  proof
    assume eq: "foldl num_max NegInfinity xs = NegInfinity"
    from ne obtain x where x: "x \<in> set xs" by (cases xs) auto
    then have "num_le x NegInfinity"
      using foldl_num_max_ge [of x xs NegInfinity] eq by simp
    then have "x = NegInfinity" by (cases x) auto
    with x eq show ?thesis by (simp add: Math_max_def)
  next
    assume "foldl num_max NegInfinity xs \<in> set xs"
    then show ?thesis by (simp add: Math_max_def)
  qed
qed

subsection \<open>Slot identifiers and their hash\<close>

lemma of_char_digit_char: "d < 10 \<Longrightarrow> (of_char (digit_char d) :: nat) = 48 + d"
  by (simp add: digit_char_def)

lemma digitValue_digit_char: "d < 10 \<Longrightarrow> digitValue (digit_char d) = Some d"
  by (simp add: digitValue_def of_char_digit_char Let_def)

lemma isDigitOf_digit_char: "d < 10 \<Longrightarrow> isDigitOf 10 (digit_char d)"
  by (simp add: isDigitOf_def digitValue_digit_char)

lemma digit_char_plain:
  assumes "d < 10"
  shows "digit_char d \<noteq> CHR ''-''" "digit_char d \<noteq> CHR ''+''" "digit_char d \<noteq> CHR ''x''"
    "digit_char d \<noteq> CHR ''X''" "\<not> isWhiteSpace (digit_char d)"
proof -
  have k: "(of_char (digit_char d) :: nat) = 48 + d" using assms by (rule of_char_digit_char)
  show "digit_char d \<noteq> CHR ''-''" using k assms by auto
  show "digit_char d \<noteq> CHR ''+''" using k assms by auto
  show "digit_char d \<noteq> CHR ''x''" using k assms by auto
  show "digit_char d \<noteq> CHR ''X''" using k assms by auto
  show "\<not> isWhiteSpace (digit_char d)" using k assms by (auto simp: isWhiteSpace_def)
qed

lemma toString_chars: "c \<in> set (toString n) \<Longrightarrow> \<exists>d<10. c = digit_char d"
proof (induction n rule: toString.induct)
  case (1 n)
  show ?case
  proof (cases "n < 10")
    case True
    with "1.prems" show ?thesis by (auto simp: toString.simps [of n])
  next
    case False
    with "1.prems" have "c \<in> set (toString (n div 10)) \<or> c = digit_char (n mod 10)"
      by (auto simp: toString.simps [of n])
    then show ?thesis
    proof
      assume "c \<in> set (toString (n div 10))"
      with False "1.IH" show ?thesis by simp
    next
      assume "c = digit_char (n mod 10)"
      moreover have "n mod 10 < 10" by simp
      ultimately show ?thesis by blast
    qed
  qed
qed

lemma toString_nonempty: "toString n \<noteq> []"
  by (subst toString.simps) simp

lemma digitsValue_snoc:
  "digitsValue r (ds @ [c]) = digitsValue r ds * r + (case digitValue c of None \<Rightarrow> 0 | Some d \<Rightarrow> d)"
  by (simp add: digitsValue_def)

lemma digitsValue_toString: "digitsValue 10 (toString n) = n"
proof (induction n rule: toString.induct)
  case (1 n)
  show ?case
  proof (cases "n < 10")
    case True
    then show ?thesis
      by (simp add: toString.simps [of n] digitsValue_def digitValue_digit_char)
  next
    case False
    with "1.IH" have "digitsValue 10 (toString (n div 10)) = n div 10" by simp
    with False show ?thesis
      by (simp add: toString.simps [of n] digitsValue_snoc digitValue_digit_char)
  qed
qed

lemma parseInt_toString: "parseInt (toString n) = Some (int n)"
proof -
  let ?s = "toString n"
  have ne: "?s \<noteq> []" by (rule toString_nonempty)
  have dig: "\<And>c. c \<in> set ?s \<Longrightarrow> \<exists>d<10. c = digit_char d" by (rule toString_chars)
  have hd_in: "hd ?s \<in> set ?s" using ne by simp
  then obtain d where d: "d < 10" "hd ?s = digit_char d" using dig by blast
  have s1: "dropWhile isWhiteSpace ?s = ?s"
    using ne d digit_char_plain(5) [OF d(1)] by (cases ?s) auto
  have nosign: "hd ?s \<noteq> CHR ''-''" "hd ?s \<noteq> CHR ''+''"
    using d digit_char_plain [OF d(1)] by auto
  have nohex: "?s ! Suc 0 \<noteq> CHR ''x'' \<and> ?s ! Suc 0 \<noteq> CHR ''X''" if "2 \<le> length ?s"
  proof -
    from that have "?s ! Suc 0 \<in> set ?s" by (intro nth_mem) simp
    then obtain e where e: "e < 10" "?s ! Suc 0 = digit_char e" using dig by blast
    with digit_char_plain [OF e(1)] show ?thesis by simp
  qed
  have all: "takeWhile (isDigitOf 10) ?s = ?s"
  proof (rule takeWhile_eq_all_conv [THEN iffD2], rule ballI)
    fix c assume "c \<in> set ?s"
    then obtain e where "e < 10" "c = digit_char e" using dig by blast
    then show "isDigitOf 10 c" by (simp add: isDigitOf_digit_char)
  qed
  show ?thesis
    unfolding parseInt_def Let_def s1
    using ne nosign nohex by (auto simp add: all digitsValue_toString)
qed

lemma split_no_sep: "c \<notin> set xs \<Longrightarrow> split c xs = [xs]"
  by (induction xs) auto

lemma split_append_sep: "c \<notin> set xs \<Longrightarrow> split c (xs @ c # ys) = xs # split c ys"
  by (induction xs) auto

lemma toString_no_dash: "CHR ''-'' \<notin> set (toString n)"
proof
  assume "CHR ''-'' \<in> set (toString n)"
  then obtain d where "d < 10" "CHR ''-'' = digit_char d" using toString_chars by blast
  then show False using digit_char_plain(1) [of d] by simp
qed

lemma slotHash_mkSlotId: "slotHash (mkSlotId hour minute) = Some (int hour + int minute)"
proof -
  have "split CHR ''-'' (mkSlotId hour minute) = [toString hour, toString minute]"
    by (simp add: mkSlotId_def split_append_sep toString_no_dash split_no_sep)
  then show ?thesis
    by (simp add: slotHash_def parseInt_toString toString_nonempty)
qed

lemma timeSlots_eq:
  "timeSlots = [mkSlot 10 0, mkSlot 10 10, mkSlot 10 20, mkSlot 10 30, mkSlot 10 40, mkSlot 10 50,
     mkSlot 11 0, mkSlot 11 10, mkSlot 11 20, mkSlot 11 30, mkSlot 11 40, mkSlot 11 50,
     mkSlot 12 0, mkSlot 12 10, mkSlot 12 20, mkSlot 12 30, mkSlot 12 40, mkSlot 12 50]"
  by (simp add: timeSlots_def generateTimeSlots_def hour_loop.simps minute_loop.simps)

lemma mkSlotId_10_30: "mkSlotId 10 30 = ''10-30''"
  by code_simp


subsection \<open>The provider chosen among the scored candidates\<close>

lemma maxScoreProvidersOf_iff:
  "p \<in> set (maxScoreProvidersOf ps) \<longleftrightarrow> p \<in> set ps \<and> score p = Math_max (map score ps)"
  by (simp add: maxScoreProvidersOf_def Let_def)

lemma maxScoreProvidersOf_nonempty: "ps \<noteq> [] \<Longrightarrow> maxScoreProvidersOf ps \<noteq> []"
proof -
  assume "ps \<noteq> []"
  then have "Math_max (map score ps) \<in> set (map score ps)"
    by (intro Math_max_mem) simp
  then obtain p where "p \<in> set ps" "score p = Math_max (map score ps)" by auto
  then have "p \<in> set (maxScoreProvidersOf ps)" by (simp add: maxScoreProvidersOf_iff)
  then show ?thesis by auto
qed

lemma js_rem_nonneg: "0 \<le> h \<Longrightarrow> 0 < n \<Longrightarrow> js_rem h n = h mod n"
  by (cases "h = 0") (simp_all add: js_rem_def)

lemma map_sort_key: "map f (sort_key f xs) = sort (map f xs)"
  by (rule properties_for_sort [symmetric]) simp_all

lemma sort_key_eq_Nil: "sort_key f xs = [] \<longleftrightarrow> xs = []"
  using length_sort [of f xs] by (metis length_0_conv)

lemma selectByMaxScore_single:
  "length (maxScoreProvidersOf ps) = 1 \<Longrightarrow>
   selectByMaxScore sl ps = Inr (score_id (maxScoreProvidersOf ps ! 0))"
  by (simp add: selectByMaxScore_def Let_def)

lemma selectByMaxScore_tied:
  assumes "length (maxScoreProvidersOf ps) \<noteq> 1" "ps \<noteq> []" "slotHash sl = Some h" "0 \<le> h"
  shows "selectByMaxScore sl ps =
         Inr (score_id (sort_key score_id (maxScoreProvidersOf ps)
                          ! nat (h mod int (length (maxScoreProvidersOf ps)))))"
proof -
  let ?tied = "maxScoreProvidersOf ps"
  have ne: "?tied \<noteq> []" using assms(2) by (rule maxScoreProvidersOf_nonempty)
  then have pos: "0 < int (length ?tied)" by simp
  have idx: "js_rem h (int (length ?tied)) = h mod int (length ?tied)"
    using assms(4) pos by (rule js_rem_nonneg)
  have "0 \<le> h mod int (length ?tied)" "h mod int (length ?tied) < int (length ?tied)"
    using pos by simp_all
  with assms(1,3) ne idx show ?thesis
    by (simp add: selectByMaxScore_def Let_def sort_key_eq_Nil)
qed

lemma selectByMaxScore_mem:
  assumes "selectByMaxScore sl ps = Inr i"
  shows "\<exists>p \<in> set (maxScoreProvidersOf ps). score_id p = i"
proof (cases "length (maxScoreProvidersOf ps) = 1")
  case True
  then have "maxScoreProvidersOf ps ! 0 \<in> set (maxScoreProvidersOf ps)" by (intro nth_mem) simp
  with True assms show ?thesis by (auto simp: selectByMaxScore_single)
next
  case False
  let ?s = "sort_key score_id (maxScoreProvidersOf ps)"
  from False assms obtain h where
      h: "0 \<le> js_rem h (int (length ?s))" "js_rem h (int (length ?s)) < int (length ?s)"
         "i = score_id (?s ! nat (js_rem h (int (length ?s))))"
    by (auto simp: selectByMaxScore_def Let_def split: option.splits if_splits)
  then have "nat (js_rem h (int (length ?s))) < length ?s" by linarith
  then have "?s ! nat (js_rem h (int (length ?s))) \<in> set ?s" by (rule nth_mem)
  then have "?s ! nat (js_rem h (int (length ?s))) \<in> set (maxScoreProvidersOf ps)" by simp
  with h(3) show ?thesis by blast
qed

lemma selectByMaxScore_total:
  assumes "ps \<noteq> []" "slotHash sl = Some h" "0 \<le> h"
  shows "\<exists>i. selectByMaxScore sl ps = Inr i"
  using assms selectByMaxScore_single [of ps sl] selectByMaxScore_tied [of ps sl h]
  by (cases "length (maxScoreProvidersOf ps) = 1") auto

lemma providerScores_nonempty: "availableProviders st sl \<noteq> [] \<Longrightarrow> providerScores st sl \<noteq> []"
  by (simp add: providerScores_def)

lemma resolve_none_iff:
  "getMaxScoreProviderForSlot st sl = Inr None \<longleftrightarrow> availableProviders st sl = []"
  by (simp add: getMaxScoreProviderForSlot_def split: sum.splits)

lemma resolve_some_mem:
  assumes "getMaxScoreProviderForSlot st sl = Inr (Some i)"
  shows "\<exists>p \<in> set (availableProviders st sl). provider_id p = i
           \<and> roundedScore st p = Math_max (map (roundedScore st) (availableProviders st sl))"
proof -
  from assms have "selectByMaxScore sl (providerScores st sl) = Inr i"
    by (auto simp: getMaxScoreProviderForSlot_def split: if_splits sum.splits)
  then obtain q where q: "q \<in> set (maxScoreProvidersOf (providerScores st sl))" "score_id q = i"
    using selectByMaxScore_mem by blast
  then have "q \<in> set (providerScores st sl)"
    and m: "score q = Math_max (map score (providerScores st sl))"
    by (simp_all add: maxScoreProvidersOf_iff)
  then obtain p where p: "p \<in> set (availableProviders st sl)"
      "q = \<lparr>score_id = provider_id p, score = roundedScore st p\<rparr>"
    by (auto simp: providerScores_def)
  have "map score (providerScores st sl) = map (roundedScore st) (availableProviders st sl)"
    by (simp add: providerScores_def comp_def)
  with p q m show ?thesis by auto
qed

lemma resolve_total:
  assumes "slotHash sl = Some h" "0 \<le> h"
  shows "\<exists>r. getMaxScoreProviderForSlot st sl = Inr r"
proof (cases "availableProviders st sl = []")
  case True
  then show ?thesis by (simp add: getMaxScoreProviderForSlot_def)
next
  case False
  then obtain i where "selectByMaxScore sl (providerScores st sl) = Inr i"
    using selectByMaxScore_total [OF providerScores_nonempty assms] by blast
  with False show ?thesis by (simp add: getMaxScoreProviderForSlot_def)
qed

subsection \<open>Weights\<close>

text \<open>
  C6. Setting one weight to a requested value \<open>v\<close> stores \<open>v\<close> clamped to
  \<open>[0.1, 0.9]\<close>, stores one minus the clamped value as the other weight, so that the
  two sum to 1, and empties the commitment store; this holds for both sliders, and
  setting the first weight to 0.3 makes the second 0.7.
\<close>

theorem weight_change_clamps_complements_clears:
  "weight1 (handleWeight1Change st v) = max (1 / 10) (min (9 / 10) v)
   \<and> 1 / 10 \<le> weight1 (handleWeight1Change st v)
   \<and> weight1 (handleWeight1Change st v) \<le> 9 / 10
   \<and> weight2 (handleWeight1Change st v) = 1 - weight1 (handleWeight1Change st v)
   \<and> weight1 (handleWeight1Change st v) + weight2 (handleWeight1Change st v) = 1
   \<and> selectedSlots (handleWeight1Change st v) = []
   \<and> weight2 (handleWeight2Change st v) = max (1 / 10) (min (9 / 10) v)
   \<and> 1 / 10 \<le> weight2 (handleWeight2Change st v)
   \<and> weight2 (handleWeight2Change st v) \<le> 9 / 10
   \<and> weight1 (handleWeight2Change st v) = 1 - weight2 (handleWeight2Change st v)
   \<and> weight1 (handleWeight2Change st v) + weight2 (handleWeight2Change st v) = 1
   \<and> selectedSlots (handleWeight2Change st v) = []
   \<and> weight1 (handleWeight1Change st (3 / 10)) = 3 / 10
   \<and> weight2 (handleWeight1Change st (3 / 10)) = 7 / 10"
  by (simp add: handleWeight1Change_def handleWeight2Change_def Let_def)

text \<open>
  C10. A weight change, by either slider, empties the commitment store and the
  newly-committed marks and leaves the pending marks as they were.
\<close>

theorem weight_change_keeps_pending_marks:
  "selectedSlots (handleWeight1Change st v) = []
   \<and> newlySelectedSlots (handleWeight1Change st v) = []
   \<and> pendingSelectionSlots (handleWeight1Change st v) = pendingSelectionSlots st
   \<and> selectedSlots (handleWeight2Change st v) = []
   \<and> newlySelectedSlots (handleWeight2Change st v) = []
   \<and> pendingSelectionSlots (handleWeight2Change st v) = pendingSelectionSlots st"
  by (simp add: handleWeight1Change_def handleWeight2Change_def Let_def)

text \<open>
  The weights of the program stay in \<open>[0.1, 0.9]\<close>: they start at 0.8 and 0.2 and
  only the two handlers write them.
\<close>

lemma weightsInRange_initial: "weightsInRange initialState"
  by (simp add: weightsInRange_def initialState_def)

lemma weightsInRange_handleWeight1Change: "weightsInRange (handleWeight1Change st v)"
  by (auto simp add: weightsInRange_def handleWeight1Change_def Let_def max_def min_def)

lemma weightsInRange_handleWeight2Change: "weightsInRange (handleWeight2Change st v)"
  by (auto simp add: weightsInRange_def handleWeight2Change_def Let_def max_def min_def)

subsection \<open>Score function\<close>

text \<open>
  C7. For a provider with a fixed capacity and fixed weights, the first of them not
  negative as every weight of the program is, the score does not increase with the
  number of committed slots: if the provider has at most as many commitments in the
  first store as in the second, its score in the first is at least its score in the
  second.
\<close>

theorem score_antitone_in_commitments:
  assumes "0 \<le> weight1 st1"
    and "weight1 st2 = weight1 st1"
    and "weight2 st2 = weight2 st1"
    and "getTotalSelectedSlots st1 pid \<le> getTotalSelectedSlots st2 pid"
  shows "num_le (calculateAvailabilityScore st2 pid lic)
           (calculateAvailabilityScore st1 pid lic)"
proof (cases "lic = 0")
  case True
  then show ?thesis by (simp add: calculateAvailabilityScore_def)
next
  case False
  have "(real (length timeSlots) - real (getTotalSelectedSlots st2 pid)) / real (length timeSlots)
        \<le> (real (length timeSlots) - real (getTotalSelectedSlots st1 pid)) / real (length timeSlots)"
    using assms(4) by (intro divide_right_mono) simp_all
  then have "weight1 st1 * ((real (length timeSlots) - real (getTotalSelectedSlots st2 pid))
               / real (length timeSlots))
        \<le> weight1 st1 * ((real (length timeSlots) - real (getTotalSelectedSlots st1 pid))
               / real (length timeSlots))"
    using assms(1) by (rule mult_left_mono)
  with False assms(2,3) show ?thesis
    by (simp add: calculateAvailabilityScore_def Let_def)
qed

theorem score_antitone_in_commitments_witness:
  "0 \<le> weight1 initialState
   \<and> getTotalSelectedSlots initialState 4 = 0
   \<and> getTotalSelectedSlots (toggleSlot initialState 4 ''10-0'') 4 = 1
   \<and> num_le (calculateAvailabilityScore (toggleSlot initialState 4 ''10-0'') 4 1)
       (calculateAvailabilityScore initialState 4 1)"
  using score_antitone_in_commitments
          [of initialState "toggleSlot initialState 4 ''10-0''" 4 1]
  by (simp add: initialState_def toggleSlot_def getTotalSelectedSlots_def countSelected_def)

subsection \<open>Resolver: dependence on the state\<close>

text \<open>
  C9. The resolver is a function of the store, the providers and the weights alone:
  two states that agree on these give the same answer for every slot, whatever their
  marks and run flags are; no random value enters it.
\<close>

theorem resolve_deterministic:
  assumes "selectedSlots st1 = selectedSlots st2"
    and "providers st1 = providers st2"
    and "weight1 st1 = weight1 st2"
    and "weight2 st1 = weight2 st2"
  shows "getMaxScoreProviderForSlot st1 sl = getMaxScoreProviderForSlot st2 sl"
proof -
  have av: "availableProviders st1 sl = availableProviders st2 sl"
    using assms by (simp add: availableProviders_def sortedProviders_def isSlotSelected_def)
  have "calculateAvailabilityScore st1 i l = calculateAvailabilityScore st2 i l" for i l
    using assms by (simp add: calculateAvailabilityScore_def getTotalSelectedSlots_def)
  then have "roundedScore st1 p = roundedScore st2 p" for p
    by (simp add: roundedScore_def)
  then have "providerScores st1 sl = providerScores st2 sl"
    using av by (simp add: providerScores_def)
  then show ?thesis
    using av by (simp add: getMaxScoreProviderForSlot_def)
qed

theorem resolve_deterministic_witness:
  "getMaxScoreProviderForSlot initialState ''10-30''
   = getMaxScoreProviderForSlot
       (initialState\<lparr>pendingSelectionSlots := [(4, [(''10-30'', True)])], isPlaying := True\<rparr>)
       ''10-30''"
  using resolve_deterministic
          [of initialState
              "initialState\<lparr>pendingSelectionSlots := [(4, [(''10-30'', True)])], isPlaying := True\<rparr>"
              "''10-30''"]
  by simp

subsection \<open>Resolver: no candidate\<close>

text \<open>
  C8. When no provider is left uncommitted for a slot, the resolver returns none, the
  value \<open>Inr None\<close>, and raises no error; so it does for a slot that every provider
  has committed.
\<close>

theorem resolve_none_when_no_candidate:
  "(availableProviders st sl = [] \<longrightarrow> getMaxScoreProviderForSlot st sl = Inr None)
   \<and> ((\<forall>p \<in> set (providers st). isSlotSelected st (provider_id p) sl)
        \<longrightarrow> getMaxScoreProviderForSlot st sl = Inr None)"
  by (simp add: getMaxScoreProviderForSlot_def availableProviders_def sortedProviders_def)

theorem resolve_none_when_no_candidate_witness:
  "availableProviders allCommitted ''10-0'' = []
   \<and> list_all (\<lambda>p. isSlotSelected allCommitted (provider_id p) ''10-0'') (providers allCommitted)
   \<and> getMaxScoreProviderForSlot allCommitted ''10-0'' = Inr None"
proof -
  have all: "\<forall>p \<in> set (providers allCommitted). isSlotSelected allCommitted (provider_id p) ''10-0''"
    by (simp add: allCommitted_def initialState_def initialProviders_def isSlotSelected_def
        lookupMark_def)
  then have "availableProviders allCommitted ''10-0'' = []"
    by (simp add: availableProviders_def sortedProviders_def)
  with all show ?thesis
    using resolve_none_when_no_candidate [of allCommitted "''10-0''"]
    by (simp add: list_all_iff)
qed

subsection \<open>Bounds on the exponential term and on scores\<close>

lemma exp_neg_upper: "0 \<le> x \<Longrightarrow> exp (- x) \<le> 1 / (1 + x + x\<^sup>2 / 2)" for x :: real
proof -
  assume x: "0 \<le> x"
  then have le: "1 + x + x\<^sup>2 / 2 \<le> exp x" by (rule exp_lower_Taylor_quadratic)
  have pos: "0 < 1 + x + x\<^sup>2 / 2" using x by (simp add: add_pos_nonneg)
  have "exp (- x) = 1 / exp x" by (simp add: exp_minus inverse_eq_divide)
  also have "\<dots> \<le> 1 / (1 + x + x\<^sup>2 / 2)"
    using le pos by (intro divide_left_mono) (simp_all add: mult_pos_pos)
  finally show ?thesis .
qed

lemma exp_neg_6_5_lower: "3 / 10 \<le> exp (- (6 / 5) :: real)"
proof -
  obtain t :: real where
    t: "exp (- (6 / 5)) = (\<Sum>m<8. ((- (6 / 5)) ^ m) / fact m) + (exp t / fact 8) * (- (6 / 5)) ^ 8"
    using Maclaurin_exp_le [of "- (6 / 5)" 8] by blast
  have "0 \<le> (exp t / fact 8) * (- (6 / 5)) ^ 8" by simp
  moreover have "(3 / 10 :: real) \<le> (\<Sum>m<8. ((- (6 / 5)) ^ m) / fact m)"
    by (simp add: lessThan_nat_numeral lessThan_Suc fact_numeral power_divide)
  ultimately show ?thesis using t by linarith
qed

lemma exp_neg_6_5_upper: "exp (- (6 / 5) :: real) < 35 / 100"
proof -
  have "exp (- (6 / 5) :: real) \<le> 1 / (1 + 6 / 5 + (6 / 5)\<^sup>2 / 2)"
    by (rule exp_neg_upper) simp
  also have "\<dots> < 35 / 100" by (simp add: power2_eq_square)
  finally show ?thesis .
qed


lemma exp_neg_le_3_10: "12 / 5 \<le> x \<Longrightarrow> exp (- x) < 3 / 10" for x :: real
proof -
  assume x: "12 / 5 \<le> x"
  have "exp (- x) \<le> exp (- (12 / 5) :: real)" using x by simp
  also have "\<dots> \<le> 1 / (1 + 12 / 5 + (12 / 5)\<^sup>2 / 2)" by (rule exp_neg_upper) simp
  also have "\<dots> < 3 / 10" by (simp add: power2_eq_square)
  finally show ?thesis .
qed

lemma exp_neg_le_1_10: "18 / 5 \<le> x \<Longrightarrow> exp (- x) < 1 / 10" for x :: real
proof -
  assume x: "18 / 5 \<le> x"
  have "exp (- x) \<le> exp (- (18 / 5) :: real)" using x by simp
  also have "\<dots> \<le> 1 / (1 + 18 / 5 + (18 / 5)\<^sup>2 / 2)" by (rule exp_neg_upper) simp
  also have "\<dots> < 1 / 10" by (simp add: power2_eq_square)
  finally show ?thesis .
qed

lemma exp_neg_le_1_20: "24 / 5 \<le> x \<Longrightarrow> exp (- x) < 1 / 20" for x :: real
proof -
  assume x: "24 / 5 \<le> x"
  have a: "exp (- (12 / 5) :: real) \<le> 1 / (1 + 12 / 5 + (12 / 5)\<^sup>2 / 2)"
    by (rule exp_neg_upper) simp
  have "exp (- x) \<le> exp (- (24 / 5) :: real)" using x by simp
  also have "\<dots> = exp (- (12 / 5)) * exp (- (12 / 5))"
    by (simp add: exp_add [symmetric])
  also have "\<dots> \<le> (1 / (1 + 12 / 5 + (12 / 5)\<^sup>2 / 2)) * (1 / (1 + 12 / 5 + (12 / 5)\<^sup>2 / 2))"
    using a by (intro mult_mono) simp_all
  also have "\<dots> < 1 / 20" by (simp add: power2_eq_square)
  finally show ?thesis .
qed

lemma length_timeSlots: "length timeSlots = 18"
  by (simp add: timeSlots_eq)

lemma calculateAvailabilityScore_finite:
  "licenses p \<noteq> 0 \<Longrightarrow>
   calculateAvailabilityScore st (provider_id p) (licenses p) = Fin (rawScore st p)"
  by (simp add: calculateAvailabilityScore_def Let_def length_timeSlots rawScore_def)

lemma roundedScore_between:
  assumes "licenses p \<noteq> 0" "real_of_int k / 100 \<le> rawScore st p"
    "rawScore st p < (real_of_int k + 1) / 100"
  shows "roundedScore st p = Fin (real_of_int k / 100)"
proof -
  have "\<lfloor>rawScore st p * 100\<rfloor> = k"
    using assms(2,3) by (intro floor_unique) simp_all
  with assms(1) show ?thesis
    by (simp add: roundedScore_def calculateAvailabilityScore_finite)
qed

lemma roundedScore_below:
  assumes "licenses p \<noteq> 0" "rawScore st p < real_of_int k / 100"
  shows "\<exists>b. roundedScore st p = Fin b \<and> b < real_of_int k / 100"
proof -
  have "\<lfloor>rawScore st p * 100\<rfloor> < k"
    using assms(2) by (simp add: floor_less_iff)
  then have "real_of_int \<lfloor>rawScore st p * 100\<rfloor> / 100 < real_of_int k / 100"
    by simp
  moreover have "roundedScore st p = Fin (real_of_int \<lfloor>rawScore st p * 100\<rfloor> / 100)"
    using assms(1) by (simp add: roundedScore_def calculateAvailabilityScore_finite)
  ultimately show ?thesis by blast
qed

lemma roundedScore_at_least:
  assumes "licenses p \<noteq> 0" "real_of_int k / 100 \<le> rawScore st p"
  shows "\<exists>b. roundedScore st p = Fin b \<and> real_of_int k / 100 \<le> b"
proof -
  have "k \<le> \<lfloor>rawScore st p * 100\<rfloor>"
    using assms(2) by (simp add: le_floor_iff)
  then have "real_of_int k / 100 \<le> real_of_int \<lfloor>rawScore st p * 100\<rfloor> / 100"
    by simp
  moreover have "roundedScore st p = Fin (real_of_int \<lfloor>rawScore st p * 100\<rfloor> / 100)"
    using assms(1) by (simp add: roundedScore_def calculateAvailabilityScore_finite)
  ultimately show ?thesis by blast
qed

lemma filter_unique:
  assumes "distinct xs" "p \<in> set xs" "P p" "\<forall>q \<in> set xs. q \<noteq> p \<longrightarrow> \<not> P q"
  shows "filter P xs = [p]"
  using assms
proof (induction xs)
  case Nil
  then show ?case by simp
next
  case (Cons x xs)
  show ?case
  proof (cases "x = p")
    case True
    with Cons.prems have "\<forall>q \<in> set xs. \<not> P q" by auto
    then have "filter P xs = []" by (simp add: filter_empty_conv)
    with True Cons.prems show ?thesis by simp
  next
    case False
    with Cons show ?thesis by auto
  qed
qed

lemma resolve_unique_max:
  assumes p: "p \<in> set (availableProviders st sl)"
    and d: "distinct (availableProviders st sl)"
    and a: "roundedScore st p = Fin a"
    and less: "\<forall>q \<in> set (availableProviders st sl). q \<noteq> p \<longrightarrow>
                 (\<exists>b. roundedScore st q = Fin b \<and> b < a)"
  shows "getMaxScoreProviderForSlot st sl = Inr (Some (provider_id p))"
proof -
  let ?av = "availableProviders st sl"
  let ?m = "Math_max (map (roundedScore st) ?av)"
  have ne: "?av \<noteq> []" using p by auto
  have "?m \<in> set (map (roundedScore st) ?av)" using ne by (intro Math_max_mem) simp
  then obtain q where q: "q \<in> set ?av" "roundedScore st q = ?m" by auto
  have ge: "num_le (roundedScore st p) ?m" using p by (intro Math_max_ge) simp
  have "q = p"
  proof (rule ccontr)
    assume "q \<noteq> p"
    with less q(1) obtain b where "roundedScore st q = Fin b" "b < a" by blast
    with ge q(2) a have "num_le (Fin a) (Fin b)" "b < a" by simp_all
    then show False by simp
  qed
  with q have m: "?m = roundedScore st p" by simp
  have other: "roundedScore st q \<noteq> ?m" if "q \<in> set ?av" "q \<noteq> p" for q
    using less that m a by auto
  have sc: "map score (providerScores st sl) = map (roundedScore st) ?av"
    by (simp add: providerScores_def comp_def)
  have "maxScoreProvidersOf (providerScores st sl)
        = map (\<lambda>p. \<lparr>score_id = provider_id p, score = roundedScore st p\<rparr>)
            (filter (\<lambda>q. roundedScore st q = ?m) ?av)"
    unfolding maxScoreProvidersOf_def Let_def sc
    by (simp add: providerScores_def filter_map comp_def)
  also have "filter (\<lambda>q. roundedScore st q = ?m) ?av = [p]"
    using d p m other by (intro filter_unique) auto
  finally have "maxScoreProvidersOf (providerScores st sl)
        = [\<lparr>score_id = provider_id p, score = roundedScore st p\<rparr>]" by simp
  then have "selectByMaxScore sl (providerScores st sl) = Inr (provider_id p)"
    by (simp add: selectByMaxScore_single)
  with ne show ?thesis by (simp add: getMaxScoreProviderForSlot_def)
qed

subsection \<open>The resolver on sample states\<close>

lemma oneCommitted_fields:
  "selectedSlots oneCommitted = [(4, [(''10-0'', True)])]"
  "providers oneCommitted = initialProviders"
  "weight1 oneCommitted = 4 / 5" "weight2 oneCommitted = 1 / 5"
  by (simp_all add: oneCommitted_def toggleSlot_def initialState_def)

lemma sortedProviders_initial:
  "providers st = initialProviders \<Longrightarrow>
   sortedProviders st =
     [\<lparr>provider_id = 4, name = ''NP Brown'', licenses = 1\<rparr>,
      \<lparr>provider_id = 2, name = ''NP Johnson'', licenses = 2\<rparr>,
      \<lparr>provider_id = 1, name = ''NP Smith'', licenses = 3\<rparr>,
      \<lparr>provider_id = 5, name = ''NP Davis'', licenses = 4\<rparr>,
      \<lparr>provider_id = 3, name = ''NP Williams'', licenses = 5\<rparr>,
      \<lparr>provider_id = 6, name = ''NP Anderson'', licenses = 10\<rparr>,
      \<lparr>provider_id = 7, name = ''NP Taylor'', licenses = 15\<rparr>]"
  by (simp add: sortedProviders_def initialProviders_def)

lemma oneCommitted_available:
  "availableProviders oneCommitted ''10-0'' =
     [\<lparr>provider_id = 2, name = ''NP Johnson'', licenses = 2\<rparr>,
      \<lparr>provider_id = 1, name = ''NP Smith'', licenses = 3\<rparr>,
      \<lparr>provider_id = 5, name = ''NP Davis'', licenses = 4\<rparr>,
      \<lparr>provider_id = 3, name = ''NP Williams'', licenses = 5\<rparr>,
      \<lparr>provider_id = 6, name = ''NP Anderson'', licenses = 10\<rparr>,
      \<lparr>provider_id = 7, name = ''NP Taylor'', licenses = 15\<rparr>]"
  by (simp add: availableProviders_def sortedProviders_initial oneCommitted_fields
      isSlotSelected_def lookupMark_def)

lemma oneCommitted_resolve: "getMaxScoreProviderForSlot oneCommitted ''10-0'' = Inr (Some 2)"
proof -
  let ?p = "\<lparr>provider_id = 2, name = ''NP Johnson'', licenses = 2\<rparr>"
  have cnt: "getTotalSelectedSlots oneCommitted i = 0" if "i \<noteq> 4" for i
    using that by (simp add: getTotalSelectedSlots_def countSelected_def oneCommitted_fields)
  have top: "roundedScore oneCommitted ?p = Fin (86 / 100)"
    using exp_neg_6_5_lower exp_neg_6_5_upper
      roundedScore_between [of ?p 86 oneCommitted]
    by (simp add: rawScore_def cnt oneCommitted_fields)
  have low: "\<exists>b. roundedScore oneCommitted q = Fin b \<and> b < 86 / 100"
    if "provider_id q \<noteq> 4" "3 \<le> licenses q" for q
  proof -
    have "12 / 5 \<le> 6 / 5 * (real_of_int (licenses q) - 1)" using that(2) by simp
    then have "exp (- (6 / 5 * (real_of_int (licenses q) - 1))) < 3 / 10"
      by (rule exp_neg_le_3_10)
    then have "rawScore oneCommitted q < real_of_int 86 / 100"
      using that(1) by (simp add: rawScore_def cnt oneCommitted_fields)
    then show ?thesis
      using roundedScore_below [of q oneCommitted 86] that(2) by simp
  qed
  have less: "\<forall>q \<in> set (availableProviders oneCommitted ''10-0''). q \<noteq> ?p \<longrightarrow>
                 (\<exists>b. roundedScore oneCommitted q = Fin b \<and> b < 86 / 100)"
  proof (intro ballI impI)
    fix q
    assume "q \<in> set (availableProviders oneCommitted ''10-0'')" "q \<noteq> ?p"
    then have "provider_id q \<noteq> 4" "3 \<le> licenses q"
      by (auto simp: oneCommitted_available)
    then show "\<exists>b. roundedScore oneCommitted q = Fin b \<and> b < 86 / 100" by (rule low)
  qed
  have "getMaxScoreProviderForSlot oneCommitted ''10-0'' = Inr (Some (provider_id ?p))"
    using _ _ top less by (rule resolve_unique_max) (simp_all add: oneCommitted_available)
  then show ?thesis by simp
qed

lemma tieState_fields:
  "selectedSlots tieState =
     [(4, [(''10-30'', True)]), (2, [(''10-30'', True)]), (1, [(''10-30'', True)]),
      (3, [(''10-30'', False)]), (6, [(''10-30'', True)]), (5, [(''10-30'', True)])]"
  "providers tieState = initialProviders"
  "weight1 tieState = 4 / 5" "weight2 tieState = 1 / 5"
  by (simp_all add: tieState_def toggleSlot_def initialState_def Let_def)

lemma tieState_available:
  "availableProviders tieState ''10-30'' =
     [\<lparr>provider_id = 3, name = ''NP Williams'', licenses = 5\<rparr>,
      \<lparr>provider_id = 7, name = ''NP Taylor'', licenses = 15\<rparr>]"
  by (simp add: availableProviders_def sortedProviders_initial tieState_fields
      isSlotSelected_def lookupMark_def)

lemma tieState_scores:
  "providerScores tieState ''10-30'' =
     [\<lparr>score_id = 3, score = Fin (80 / 100)\<rparr>, \<lparr>score_id = 7, score = Fin (80 / 100)\<rparr>]"
proof -
  have cnt: "getTotalSelectedSlots tieState 3 = 0" "getTotalSelectedSlots tieState 7 = 0"
    by (simp_all add: getTotalSelectedSlots_def countSelected_def tieState_fields)
  have "roundedScore tieState \<lparr>provider_id = 3, name = ''NP Williams'', licenses = 5\<rparr>
        = Fin (real_of_int 80 / 100)"
    using exp_neg_le_1_20 [of "24 / 5"]
    by (intro roundedScore_between) (simp_all add: rawScore_def cnt tieState_fields)
  moreover have "roundedScore tieState \<lparr>provider_id = 7, name = ''NP Taylor'', licenses = 15\<rparr>
        = Fin (real_of_int 80 / 100)"
    using exp_neg_le_1_20 [of "84 / 5"]
    by (intro roundedScore_between) (simp_all add: rawScore_def cnt tieState_fields)
  ultimately show ?thesis
    by (simp add: providerScores_def tieState_available)
qed

lemma tieState_tied:
  "maxScoreProvidersOf (providerScores tieState ''10-30'') =
     [\<lparr>score_id = 3, score = Fin (80 / 100)\<rparr>, \<lparr>score_id = 7, score = Fin (80 / 100)\<rparr>]"
  by (simp add: tieState_scores maxScoreProvidersOf_def Math_max_def num_max_def Let_def)


lemma truncation_differs_from_rounding:
  "truncateToTwoDecimals (Fin (867 / 1000)) = Fin (86 / 100)
   \<and> roundToNearest (867 / 1000) = 87 / 100"
  by (simp add: roundToNearest_def round_def)

subsection \<open>Resolver: which providers are candidates\<close>

text \<open>
  C1, as the code has it. A provider committed to a slot is never returned for that
  slot, and the provider returned is one of the providers; the other providers stay
  candidates, so the resolver returns none exactly when every provider holds a
  commitment on the slot.
\<close>

theorem resolve_excludes_committed_providers_only:
  "(\<forall>i. getMaxScoreProviderForSlot st sl = Inr (Some i)
        \<longrightarrow> \<not> isSlotSelected st i sl \<and> i \<in> provider_id ` set (providers st))
   \<and> (getMaxScoreProviderForSlot st sl = Inr None
        \<longleftrightarrow> (\<forall>p \<in> set (providers st). isSlotSelected st (provider_id p) sl))"
proof -
  have "\<not> isSlotSelected st i sl \<and> i \<in> provider_id ` set (providers st)"
    if "getMaxScoreProviderForSlot st sl = Inr (Some i)" for i
  proof -
    from that obtain p where "p \<in> set (availableProviders st sl)" "provider_id p = i"
      using resolve_some_mem by blast
    then show ?thesis by (auto simp: availableProviders_def sortedProviders_def)
  qed
  moreover have "availableProviders st sl = []
      \<longleftrightarrow> (\<forall>p \<in> set (providers st). isSlotSelected st (provider_id p) sl)"
    by (auto simp: availableProviders_def sortedProviders_def filter_empty_conv)
  ultimately show ?thesis by (simp add: resolve_none_iff)
qed


theorem resolve_excludes_committed_providers_only_witness:
  "getMaxScoreProviderForSlot oneCommitted ''10-0'' = Inr (Some 2)
   \<and> \<not> isSlotSelected oneCommitted 2 ''10-0''
   \<and> 2 \<in> provider_id ` set (providers oneCommitted)
   \<and> getMaxScoreProviderForSlot oneCommitted ''10-0'' \<noteq> Inr None
   \<and> \<not> list_all (\<lambda>p. isSlotSelected oneCommitted (provider_id p) ''10-0'')
         (providers oneCommitted)"
  using resolve_excludes_committed_providers_only [of oneCommitted "''10-0''"]
    oneCommitted_resolve
  by (simp add: list_all_iff)

text \<open>
  C1, as stated, fails: provider 4 holds the slot 10-0, and the resolver returns
  provider 2 for it, not none.
\<close>

theorem committed_slot_still_resolves:
  "isSlotSelected oneCommitted 4 ''10-0''
   \<and> getMaxScoreProviderForSlot oneCommitted ''10-0'' = Inr (Some 2)"
  using oneCommitted_resolve
  by (simp add: isSlotSelected_def lookupMark_def oneCommitted_fields)

subsection \<open>Resolver: the maximal truncated score\<close>




subsection \<open>Resolver: the tie-break\<close>

text \<open>
  C3. When two or more candidates are tied at the maximal truncated score of a slot
  hour-minute, the resolver takes the tied candidates in ascending order of provider
  identifier (a sorted rearrangement of the tied identifiers), takes the sum of the two
  components of the slot identifier as hash, and returns the candidate at position
  hash mod (number of tied candidates) of that order. For the slot 10-30 and the tied
  candidates 3 and 7 it returns provider 3.
\<close>

theorem tie_break_by_slot_hash:
  assumes "2 \<le> length (maxScoreProvidersOf (providerScores st (mkSlotId hour minute)))"
  shows "sorted (map score_id
            (sort_key score_id (maxScoreProvidersOf (providerScores st (mkSlotId hour minute)))))
         \<and> mset (map score_id
            (sort_key score_id (maxScoreProvidersOf (providerScores st (mkSlotId hour minute)))))
           = mset (map score_id (maxScoreProvidersOf (providerScores st (mkSlotId hour minute))))
         \<and> slotHash (mkSlotId hour minute) = Some (int hour + int minute)
         \<and> getMaxScoreProviderForSlot st (mkSlotId hour minute)
           = Inr (Some (map score_id
               (sort_key score_id (maxScoreProvidersOf (providerScores st (mkSlotId hour minute))))
               ! ((hour + minute)
                   mod length (maxScoreProvidersOf (providerScores st (mkSlotId hour minute))))))"
proof -
  let ?sl = "mkSlotId hour minute"
  let ?ps = "providerScores st ?sl"
  let ?tied = "maxScoreProvidersOf ?ps"
  have h: "slotHash ?sl = Some (int hour + int minute)" by (rule slotHash_mkSlotId)
  have ps: "?ps \<noteq> []" using assms by (auto simp: maxScoreProvidersOf_def)
  then have av: "availableProviders st ?sl \<noteq> []" by (auto simp: providerScores_def)
  have n1: "length ?tied \<noteq> 1" using assms by simp
  have idx: "nat ((int hour + int minute) mod int (length ?tied)) = (hour + minute) mod length ?tied"
    by (simp add: nat_mod_distrib flip: of_nat_add of_nat_mod)
  have "0 < length ?tied" using assms by linarith
  then have lt: "(hour + minute) mod length ?tied < length (sort_key score_id ?tied)"
    by simp
  have "selectByMaxScore ?sl ?ps
        = Inr (score_id (sort_key score_id ?tied ! ((hour + minute) mod length ?tied)))"
    using selectByMaxScore_tied [OF n1 ps h] idx by simp
  then have "getMaxScoreProviderForSlot st ?sl
        = Inr (Some (map score_id (sort_key score_id ?tied) ! ((hour + minute) mod length ?tied)))"
    using av lt by (simp add: getMaxScoreProviderForSlot_def)
  with h show ?thesis by simp
qed


theorem tie_break_by_slot_hash_witness:
  "map score_id (sort_key score_id (maxScoreProvidersOf (providerScores tieState ''10-30''))) = [3, 7]
   \<and> getMaxScoreProviderForSlot tieState ''10-30'' = Inr (Some 3)"
proof -
  have h: "(40::nat) mod Suc (Suc 0) = 0" by presburger
  show ?thesis
    using tie_break_by_slot_hash [of tieState 10 30]
    by (simp add: mkSlotId_10_30 tieState_tied h)
qed
subsection \<open>Highlighted slots: no error, and what an entry records\<close>

lemma forEachSlot_map:
  "\<forall>s \<in> set slots. f s = Inr (Some (g s)) \<Longrightarrow> forEachSlot f slots = Inr (map g slots)"
  by (induction slots) auto

lemma forEachSlot_total:
  "\<forall>s \<in> set slots. \<exists>r. f s = Inr r \<Longrightarrow> \<exists>hs. forEachSlot f slots = Inr hs"
proof (induction slots)
  case Nil
  show ?case by simp
next
  case (Cons s slots)
  then obtain r hs where "f s = Inr r" "forEachSlot f slots = Inr hs" by auto
  then show ?case by simp
qed

lemma forEachSlot_set:
  "forEachSlot f slots = Inr hs \<Longrightarrow> h \<in> set hs \<Longrightarrow> \<exists>s \<in> set slots. f s = Inr (Some h)"
proof (induction slots arbitrary: hs)
  case Nil
  then show ?case by simp
next
  case (Cons s slots)
  from Cons.prems(1) obtain r hs' where r: "f s = Inr r" "forEachSlot f slots = Inr hs'"
      "hs = (case r of None \<Rightarrow> [] | Some h \<Rightarrow> [h]) @ hs'"
    by (auto split: sum.splits)
  with Cons.prems(2) have "r = Some h \<or> h \<in> set hs'" by (auto split: option.splits)
  then show ?case
  proof
    assume "r = Some h"
    with r(1) show ?thesis by simp
  next
    assume "h \<in> set hs'"
    with Cons.IH [OF r(2)] show ?thesis by auto
  qed
qed

lemma timeSlots_mkSlot: "s \<in> set timeSlots \<Longrightarrow> \<exists>hour minute. s = mkSlot hour minute"
  unfolding timeSlots_eq by (elim set_ConsD [elim_format] disjE) (blast, simp)+

lemma timeSlots_form: "s \<in> set timeSlots \<Longrightarrow> \<exists>hour minute. slot_id s = mkSlotId hour minute"
proof -
  assume "s \<in> set timeSlots"
  then obtain hour minute where "s = mkSlot hour minute" using timeSlots_mkSlot by blast
  then have "slot_id s = mkSlotId hour minute" by (simp add: mkSlot_def)
  then show ?thesis by blast
qed

lemma timeSlots_hash:
  assumes "sl \<in> slot_id ` set timeSlots"
  shows "\<exists>h. slotHash sl = Some h \<and> 0 \<le> h"
proof -
  from assms obtain s where "s \<in> set timeSlots" "sl = slot_id s" by auto
  then obtain hour minute where "sl = mkSlotId hour minute"
    using timeSlots_form [of s] by auto
  then show ?thesis by (simp add: slotHash_mkSlotId)
qed

lemma resolve_total_timeSlots:
  "sl \<in> slot_id ` set timeSlots \<Longrightarrow> \<exists>r. getMaxScoreProviderForSlot st sl = Inr r"
  using timeSlots_hash resolve_total by blast

lemma currentHighlight_total:
  assumes "s \<in> set timeSlots"
  shows "\<exists>r. currentHighlight st s = Inr r"
proof -
  from assms obtain r where "getMaxScoreProviderForSlot st (slot_id s) = Inr r"
    using resolve_total_timeSlots [of "slot_id s" st] by auto
  then show ?thesis by (cases r) (simp_all add: currentHighlight_def)
qed

lemma currentHighlight_entry:
  assumes "currentHighlight st s = Inr (Some e)"
  shows "slotId e = slot_id s \<and> getMaxScoreProviderForSlot st (slot_id s) = Inr (Some (providerId e))"
  using assms by (auto simp: currentHighlight_def split: sum.splits option.splits)

lemma getCurrentHighlighted_total: "\<exists>hs. getCurrentHighlighted st = Inr hs"
proof -
  obtain hs where "forEachSlot (currentHighlight st) timeSlots = Inr hs"
    using forEachSlot_total [of timeSlots "currentHighlight st"] currentHighlight_total by blast
  then show ?thesis by (simp add: getCurrentHighlighted_def)
qed

lemma getCurrentHighlighted_entry:
  assumes "getCurrentHighlighted st = Inr hs" "e \<in> set hs"
  shows "slotId e \<in> slot_id ` set timeSlots
         \<and> getMaxScoreProviderForSlot st (slotId e) = Inr (Some (providerId e))"
proof -
  from assms(1) obtain hs' where hs': "forEachSlot (currentHighlight st) timeSlots = Inr hs'"
      "hs = sort_key timeIndex hs'"
    by (auto simp: getCurrentHighlighted_def split: sum.splits)
  with assms(2) have "e \<in> set hs'" by simp
  then obtain s where "s \<in> set timeSlots" "currentHighlight st s = Inr (Some e)"
    using forEachSlot_set [OF hs'(1)] by blast
  then show ?thesis using currentHighlight_entry [of st s e] by auto
qed

lemma highlightSlot_total:
  assumes "s \<in> set timeSlots"
  shows "\<exists>r. highlightSlot st ws s = Inr r"
proof -
  let ?av = "filter (\<lambda>p. \<not> lookupMark ws (provider_id p) (slot_id s)) (sortedProviders st)"
  show ?thesis
  proof (cases "?av = []")
    case True
    then show ?thesis by (simp add: highlightSlot_def)
  next
    case False
    obtain h where "slotHash (slot_id s) = Some h" "0 \<le> h"
      using timeSlots_hash [of "slot_id s"] assms by auto
    then obtain i where "selectByMaxScore (slot_id s) (map (snapshotScore st ws) ?av) = Inr i"
      using selectByMaxScore_total [of "map (snapshotScore st ws) ?av" "slot_id s" h] False
      by auto
    with False show ?thesis by (simp add: highlightSlot_def)
  qed
qed

lemma highlightSlot_entry:
  "highlightSlot st ws s = Inr (Some e) \<Longrightarrow> slotId e = slot_id s"
  by (auto simp: highlightSlot_def Let_def split: if_splits sum.splits)

lemma getHighlightedSlots_total: "\<exists>hs. getHighlightedSlots st ws = Inr hs"
proof -
  obtain hs where "forEachSlot (highlightSlot st ws) timeSlots = Inr hs"
    using forEachSlot_total [of timeSlots "highlightSlot st ws"] highlightSlot_total by blast
  then show ?thesis by (simp add: getHighlightedSlots_def)
qed

lemma getHighlightedSlots_entry:
  assumes "getHighlightedSlots st ws = Inr hs" "e \<in> set hs"
  shows "slotId e \<in> slot_id ` set timeSlots"
proof -
  from assms(1) obtain hs' where hs': "forEachSlot (highlightSlot st ws) timeSlots = Inr hs'"
      "hs = sort_key timeIndex hs'"
    by (auto simp: getHighlightedSlots_def split: sum.splits)
  with assms(2) have "e \<in> set hs'" by simp
  then obtain s where "s \<in> set timeSlots" "highlightSlot st ws s = Inr (Some e)"
    using forEachSlot_set [OF hs'(1)] by blast
  then show ?thesis using highlightSlot_entry [of st ws s e] by auto
qed

subsection \<open>Sampling from a band\<close>

lemma random_index:
  assumes "0 \<le> r" "r < 1" "0 < n"
  shows "0 \<le> \<lfloor>r * real n\<rfloor>" "\<lfloor>r * real n\<rfloor> < int n" "nat \<lfloor>r * real n\<rfloor> < n"
proof -
  show a: "0 \<le> \<lfloor>r * real n\<rfloor>" using assms by simp
  have "r * real n < real n" using assms by simp
  then show b: "\<lfloor>r * real n\<rfloor> < int n" by (simp add: floor_less_iff)
  from a b show "nat \<lfloor>r * real n\<rfloor> < n" by linarith
qed

lemma random_index_uniform:
  assumes "0 \<le> r" "0 < k"
  shows "nat \<lfloor>r * real k\<rfloor> = i \<longleftrightarrow> real i / real k \<le> r \<and> r < (real i + 1) / real k"
proof -
  have nn: "0 \<le> \<lfloor>r * real k\<rfloor>" using assms by simp
  have "nat \<lfloor>r * real k\<rfloor> = i \<longleftrightarrow> \<lfloor>r * real k\<rfloor> = int i" using nn by linarith
  also have "\<dots> \<longleftrightarrow> real i \<le> r * real k \<and> r * real k < real i + 1"
    by (simp add: floor_eq_iff)
  also have "\<dots> \<longleftrightarrow> real i / real k \<le> r \<and> r < (real i + 1) / real k"
    using assms(2) by (simp add: pos_divide_le_eq pos_less_divide_eq)
  finally show ?thesis .
qed

lemma pickVerified_result:
  assumes "0 \<le> r" "r < 1" "cands \<noteq> []"
    and "\<forall>e \<in> set cands. slotId e \<in> slot_id ` set timeSlots"
  shows "nat \<lfloor>r * real (length cands)\<rfloor> < length cands
         \<and> pickVerified st cands r =
             Inr (if getMaxScoreProviderForSlot st (slotId (cands ! nat \<lfloor>r * real (length cands)\<rfloor>))
                       = Inr (Some (providerId (cands ! nat \<lfloor>r * real (length cands)\<rfloor>)))
                  then Some (cands ! nat \<lfloor>r * real (length cands)\<rfloor>) else None)"
proof -
  let ?i = "\<lfloor>r * real (length cands)\<rfloor>"
  let ?e = "cands ! nat ?i"
  have pos: "0 < length cands" using assms(3) by simp
  note idx = random_index [OF assms(1,2) pos]
  have "?e \<in> set cands" using idx(3) by (rule nth_mem)
  then have "slotId ?e \<in> slot_id ` set timeSlots" using assms(4) by blast
  then obtain rr where rr: "getMaxScoreProviderForSlot st (slotId ?e) = Inr rr"
    using resolve_total_timeSlots by blast
  show ?thesis
    using idx rr by (simp add: pickVerified_def Let_def)
qed

lemma slice_inner:
  assumes "0 \<le> s" "s \<le> e" "e \<le> int (length xs)"
  shows "length (slice s e xs) = nat (e - s)"
    and "i < nat (e - s) \<Longrightarrow> slice s e xs ! i = xs ! (nat s + i)"
proof -
  have eq: "slice s e xs = take (nat (e - s)) (drop (nat s) xs)"
    using assms by (simp add: slice_def Let_def min_def)
  show "length (slice s e xs) = nat (e - s)"
    unfolding eq using assms by simp
  show "slice s e xs ! i = xs ! (nat s + i)" if "i < nat (e - s)"
    unfolding eq using that assms by simp
qed

lemma ceiling_band:
  assumes "0 < n"
  shows "(\<lceil>real n * lo\<rceil> \<le> int j \<and> int j < \<lceil>real n * hi\<rceil>)
         \<longleftrightarrow> (lo \<le> real j / real n \<and> real j / real n < hi)"
proof -
  have "\<lceil>real n * lo\<rceil> \<le> int j \<longleftrightarrow> real n * lo \<le> real j" by (simp add: ceiling_le_iff)
  also have "\<dots> \<longleftrightarrow> lo \<le> real j / real n"
    using assms by (simp add: pos_le_divide_eq mult.commute)
  finally have a: "\<lceil>real n * lo\<rceil> \<le> int j \<longleftrightarrow> lo \<le> real j / real n" .
  have "int j < \<lceil>real n * hi\<rceil> \<longleftrightarrow> real j < real n * hi" by (simp add: less_ceiling_iff)
  also have "\<dots> \<longleftrightarrow> real j / real n < hi"
    using assms by (simp add: pos_divide_less_eq mult.commute)
  finally have b: "int j < \<lceil>real n * hi\<rceil> \<longleftrightarrow> real j / real n < hi" .
  from a b show ?thesis by simp
qed

lemma ceiling_fraction_bounds:
  assumes "0 \<le> lo" "hi \<le> 1"
  shows "0 \<le> \<lceil>real n * lo\<rceil>" "\<lceil>real n * hi\<rceil> \<le> int n"
proof -
  have "0 \<le> real n * lo" using assms(1) by simp
  then show "0 \<le> \<lceil>real n * lo\<rceil>" by (simp add: ceiling_le_iff le_ceiling_iff)
  have "real n * hi \<le> real n" using assms(2) by (simp add: mult_left_le)
  then show "\<lceil>real n * hi\<rceil> \<le> int n" by (simp add: ceiling_le_iff)
qed

lemma selectRandomSlotFromRange_result:
  assumes r: "0 \<le> r" "r < 1" and b: "0 \<le> lo" "hi \<le> 1"
    and ids: "\<forall>e \<in> set hs. slotId e \<in> slot_id ` set timeSlots"
  shows "\<exists>res. selectRandomSlotFromRange st hs lo hi r = Inr res
           \<and> (\<forall>s. res = Some s \<longrightarrow>
                 (\<exists>j. inBand j (length hs) lo hi \<and> s = hs ! j)
                 \<and> getMaxScoreProviderForSlot st (slotId s) = Inr (Some (providerId s)))
           \<and> ((\<forall>j. \<not> inBand j (length hs) lo hi) \<longrightarrow> res = None)"
proof (cases "hs = []")
  case True
  then show ?thesis by (simp add: selectRandomSlotFromRange_def)
next
  case False
  let ?n = "length hs"
  let ?start = "\<lceil>real ?n * lo\<rceil>"
  let ?end = "\<lceil>real ?n * hi\<rceil>"
  have n: "0 < ?n" using False by simp
  note fb = ceiling_fraction_bounds [OF b, of ?n]
  show ?thesis
  proof (cases "?end \<le> ?start")
    case True
    with False show ?thesis by (simp add: selectRandomSlotFromRange_def Let_def)
  next
    case le: False
    let ?range = "slice ?start ?end hs"
    have se: "?start \<le> ?end" using le by simp
    note sl = slice_inner [OF fb(1) se fb(2)]
    have len: "length ?range = nat (?end - ?start)" by (rule sl(1))
    then have ne: "?range \<noteq> []" using le by auto
    let ?i = "nat \<lfloor>r * real (length ?range)\<rfloor>"
    let ?j = "nat ?start + ?i"
    have pos: "0 < length ?range" using ne by simp
    have i: "?i < length ?range" by (rule random_index(3) [OF r pos])
    then have "?i < nat (?end - ?start)" using len by linarith
    then have nth: "?range ! ?i = hs ! ?j" by (rule sl(2))
    have jlo: "?start \<le> int ?j" using fb(1) by simp
    have jhi: "int ?j < ?end" using i len fb(1) by linarith
    then have jn: "?j < ?n" using fb(2) by linarith
    have band: "inBand ?j ?n lo hi"
      using ceiling_band [OF n, of lo ?j hi] jlo jhi jn by (simp add: inBand_def)
    have "?range ! ?i \<in> set ?range" using i by (rule nth_mem)
    have rids: "\<forall>e \<in> set ?range. slotId e \<in> slot_id ` set timeSlots"
    proof
      fix e assume "e \<in> set ?range"
      then have "e \<in> set hs"
        by (auto simp: slice_def Let_def dest: in_set_takeD in_set_dropD)
      with ids show "slotId e \<in> slot_id ` set timeSlots" by blast
    qed
    from pickVerified_result [OF r ne rids, of st]
    have pv: "pickVerified st ?range r =
        Inr (if getMaxScoreProviderForSlot st (slotId (hs ! ?j)) = Inr (Some (providerId (hs ! ?j)))
             then Some (hs ! ?j) else None)"
      using nth by simp
    have sel: "selectRandomSlotFromRange st hs lo hi r = pickVerified st ?range r"
      using False le ne by (simp add: selectRandomSlotFromRange_def Let_def)
    show ?thesis
      unfolding sel pv using band by auto
  qed
qed

lemma selectRandomSlotFromFirstPercent_result:
  assumes r: "0 \<le> r" "r < 1" and ne: "hs \<noteq> []" and p: "p \<le> 1"
    and ok: "\<forall>e \<in> set hs. slotId e \<in> slot_id ` set timeSlots
               \<and> getMaxScoreProviderForSlot st (slotId e) = Inr (Some (providerId e))"
  shows "nat (max 1 \<lceil>real (length hs) * p\<rceil>) \<le> length hs"
    and "nat \<lfloor>r * real (nat (max 1 \<lceil>real (length hs) * p\<rceil>))\<rfloor> < nat (max 1 \<lceil>real (length hs) * p\<rceil>)"
    and "selectRandomSlotFromFirstPercent st hs p r
         = Inr (Some (hs ! nat \<lfloor>r * real (nat (max 1 \<lceil>real (length hs) * p\<rceil>))\<rfloor>))"
proof -
  let ?n = "length hs"
  let ?k = "max 1 \<lceil>real ?n * p\<rceil>"
  let ?first = "slice 0 ?k hs"
  have n: "0 < ?n" using ne by simp
  have "real ?n * p \<le> real ?n" using p by (simp add: mult_left_le)
  then have "\<lceil>real ?n * p\<rceil> \<le> int ?n" by (simp add: ceiling_le_iff)
  then have k: "0 \<le> ?k" "?k \<le> int ?n" "0 < nat ?k" using n by linarith+
  show kn: "nat ?k \<le> ?n" using k by linarith
  note sl = slice_inner [of 0 ?k hs, OF order_refl k(1) k(2)]
  have len: "length ?first = nat ?k" using sl(1) by simp
  then have fne: "?first \<noteq> []" using k(3) by auto
  let ?i = "nat \<lfloor>r * real (nat ?k)\<rfloor>"
  show i: "?i < nat ?k" by (rule random_index(3) [OF r k(3)])
  then have "?i < nat (?k - 0)" by simp
  then have "?first ! ?i = hs ! (nat 0 + ?i)" by (rule sl(2))
  then have nth: "?first ! ?i = hs ! ?i" by simp
  have "?i < ?n" using i kn by linarith
  then have mem: "hs ! ?i \<in> set hs" by (rule nth_mem)
  have fids: "\<forall>e \<in> set ?first. slotId e \<in> slot_id ` set timeSlots"
  proof
    fix e assume "e \<in> set ?first"
    then have "e \<in> set hs"
      by (auto simp: slice_def Let_def dest: in_set_takeD in_set_dropD)
    with ok show "slotId e \<in> slot_id ` set timeSlots" by blast
  qed
  from pickVerified_result [OF r fne fids, of st]
  have "pickVerified st ?first r = Inr (Some (hs ! ?i))"
    using nth len ok mem by simp
  then show "selectRandomSlotFromFirstPercent st hs p r = Inr (Some (hs ! ?i))"
    using ne fne by (simp add: selectRandomSlotFromFirstPercent_def Let_def)
qed

subsection \<open>The plan of one iteration\<close>

lemma range_guard:
  "(if length hs > 0 then selectRandomSlotFromRange st hs lo hi r else Inr None)
   = selectRandomSlotFromRange st hs lo hi r"
  by (simp add: selectRandomSlotFromRange_def)

lemma planAfterFirst_shape:
  assumes r2: "0 \<le> rnd2" "rnd2 < 1" and r3: "0 \<le> rnd3" "rnd3 < 1"
  shows "\<exists>it. planAfterFirst st hs s1 rnd2 rnd3 = Inr it
      \<and> highlightedSlots it = hs \<and> slot1 it = s1
      \<and> workingState1 it = setMark (selectedSlots st) (providerId s1) (slotId s1)
      \<and> getHighlightedSlots st (workingState1 it) = Inr (highlightedAfter1 it)
      \<and> workingState2 it = markSelection (workingState1 it) (slot2 it)
      \<and> (slot2 it \<noteq> None \<longrightarrow> getHighlightedSlots st (workingState2 it) = Inr (highlightedAfter2 it))
      \<and> (slot2 it = None \<longrightarrow> highlightedAfter2 it = [] \<and> slot3 it = None)
      \<and> (\<forall>s. slot2 it = Some s \<longrightarrow>
             (\<exists>j. inBand j (length (highlightedAfter1 it)) (2 / 10) (5 / 10)
                  \<and> s = highlightedAfter1 it ! j)
             \<and> getMaxScoreProviderForSlot st (slotId s) = Inr (Some (providerId s)))
      \<and> ((\<forall>j. \<not> inBand j (length (highlightedAfter1 it)) (2 / 10) (5 / 10)) \<longrightarrow> slot2 it = None)
      \<and> (\<forall>s. slot3 it = Some s \<longrightarrow>
             (\<exists>j. inBand j (length (highlightedAfter2 it)) (5 / 10) (7 / 10)
                  \<and> s = highlightedAfter2 it ! j)
             \<and> getMaxScoreProviderForSlot st (slotId s) = Inr (Some (providerId s)))
      \<and> ((\<forall>j. \<not> inBand j (length (highlightedAfter2 it)) (5 / 10) (7 / 10)) \<longrightarrow> slot3 it = None)"
proof -
  let ?ws1 = "setMark (selectedSlots st) (providerId s1) (slotId s1)"
  obtain after1 where a1: "getHighlightedSlots st ?ws1 = Inr after1"
    using getHighlightedSlots_total by blast
  have ids1: "\<forall>e \<in> set after1. slotId e \<in> slot_id ` set timeSlots"
    using getHighlightedSlots_entry [OF a1] by blast
  obtain s2 where s2: "selectRandomSlotFromRange st after1 (2 / 10) (5 / 10) rnd2 = Inr s2"
      "\<forall>s. s2 = Some s \<longrightarrow>
             (\<exists>j. inBand j (length after1) (2 / 10) (5 / 10) \<and> s = after1 ! j)
             \<and> getMaxScoreProviderForSlot st (slotId s) = Inr (Some (providerId s))"
      "(\<forall>j. \<not> inBand j (length after1) (2 / 10) (5 / 10)) \<longrightarrow> s2 = None"
    using selectRandomSlotFromRange_result [OF r2 _ _ ids1, of "2 / 10" "5 / 10" st] by auto
  let ?ws2 = "markSelection ?ws1 s2"
  obtain after2 where a2: "(if s2 \<noteq> None then getHighlightedSlots st ?ws2 else Inr []) = Inr after2"
    using getHighlightedSlots_total [of st ?ws2] by (cases "s2 = None") auto
  have ids2: "\<forall>e \<in> set after2. slotId e \<in> slot_id ` set timeSlots"
  proof (cases "s2 = None")
    case True
    with a2 show ?thesis by simp
  next
    case False
    with a2 have "getHighlightedSlots st ?ws2 = Inr after2" by simp
    then show ?thesis using getHighlightedSlots_entry by blast
  qed
  obtain s3 where s3: "selectRandomSlotFromRange st after2 (5 / 10) (7 / 10) rnd3 = Inr s3"
      "\<forall>s. s3 = Some s \<longrightarrow>
             (\<exists>j. inBand j (length after2) (5 / 10) (7 / 10) \<and> s = after2 ! j)
             \<and> getMaxScoreProviderForSlot st (slotId s) = Inr (Some (providerId s))"
      "(\<forall>j. \<not> inBand j (length after2) (5 / 10) (7 / 10)) \<longrightarrow> s3 = None"
    using selectRandomSlotFromRange_result [OF r3 _ _ ids2, of "5 / 10" "7 / 10" st] by auto
  have none3: "s3 = None" if "s2 = None"
  proof -
    from that a2 have "after2 = []" by simp
    then show ?thesis using s3(1) by (simp add: selectRandomSlotFromRange_def)
  qed
  let ?it = "\<lparr>highlightedSlots = hs, slot1 = s1, workingState1 = ?ws1,
               highlightedAfter1 = after1, slot2 = s2, workingState2 = ?ws2,
               highlightedAfter2 = after2, slot3 = s3\<rparr>"
  have "planAfterFirst st hs s1 rnd2 rnd3 = Inr ?it"
    unfolding planAfterFirst_def Let_def a1 range_guard
    using a2 s2(1) s3(1) by (simp add: range_guard)
  moreover have "slot2 ?it \<noteq> None \<longrightarrow> getHighlightedSlots st (workingState2 ?it) = Inr (highlightedAfter2 ?it)"
    using a2 by (cases "s2 = None") simp_all
  moreover have "slot2 ?it = None \<longrightarrow> highlightedAfter2 ?it = [] \<and> slot3 ?it = None"
    using a2 none3 by (cases "s2 = None") auto
  ultimately show ?thesis
    using a1 s2(2,3) s3(2,3) by (intro exI [of _ ?it]) simp
qed

lemma lookupMark_setMark:
  "lookupMark (setMark m p s) p' s' = (if p' = p \<and> s' = s then True else lookupMark m p' s')"
  by (auto simp: lookupMark_def setMark_def update_conv' split: option.splits)

lemma snapshotScore_eq:
  assumes "licenses p \<noteq> 0"
  shows "snapshotScore st ws p
         = \<lparr>score_id = provider_id p, score = roundedScore (st\<lparr>selectedSlots := ws\<rparr>) p\<rparr>"
  using assms
  by (simp add: snapshotScore_def roundedScore_def calculateAvailabilityScore_def
      getTotalSelectedSlots_def Let_def)

lemma highlightSlot_eq_currentHighlight:
  assumes "\<forall>p \<in> set (providers st). licenses p \<noteq> 0"
  shows "highlightSlot st ws s = currentHighlight (st\<lparr>selectedSlots := ws\<rparr>) s"
proof -
  let ?st = "st\<lparr>selectedSlots := ws\<rparr>"
  have av: "filter (\<lambda>p. \<not> lookupMark ws (provider_id p) (slot_id s)) (sortedProviders st)
            = availableProviders ?st (slot_id s)"
    by (simp add: availableProviders_def sortedProviders_def isSlotSelected_def)
  have "\<forall>p \<in> set (availableProviders ?st (slot_id s)). licenses p \<noteq> 0"
    using assms by (auto simp: availableProviders_def sortedProviders_def)
  then have sc: "map (snapshotScore st ws) (availableProviders ?st (slot_id s))
            = providerScores ?st (slot_id s)"
    by (simp add: providerScores_def snapshotScore_eq)
  show ?thesis
    unfolding highlightSlot_def currentHighlight_def getMaxScoreProviderForSlot_def Let_def av sc
    by (simp split: sum.splits)
qed

lemma getHighlightedSlots_eq_getCurrentHighlighted:
  assumes "\<forall>p \<in> set (providers st). licenses p \<noteq> 0"
  shows "getHighlightedSlots st ws = getCurrentHighlighted (st\<lparr>selectedSlots := ws\<rparr>)"
proof -
  have "highlightSlot st ws = currentHighlight (st\<lparr>selectedSlots := ws\<rparr>)"
    using highlightSlot_eq_currentHighlight [OF assms] by (intro ext)
  then show ?thesis by (simp add: getHighlightedSlots_def getCurrentHighlighted_def)
qed

lemma runSimulationIteration_shape:
  assumes idle: "\<not> simulationInProgress st"
    and r1: "0 \<le> rnd1" "rnd1 < 1" and r2: "0 \<le> rnd2" "rnd2 < 1" and r3: "0 \<le> rnd3" "rnd3 < 1"
    and h0: "getCurrentHighlighted st = Inr h0" "h0 \<noteq> []"
  shows "\<exists>st' it. runSimulationIteration st rnd1 rnd2 rnd3 = Inr (st', Some it)
           \<and> planAfterFirst st h0
                (h0 ! nat \<lfloor>rnd1 * real (nat (max 1 \<lceil>real (length h0) * (2 / 10)\<rceil>))\<rfloor>) rnd2 rnd3
               = Inr it"
proof -
  let ?s1 = "h0 ! nat \<lfloor>rnd1 * real (nat (max 1 \<lceil>real (length h0) * (2 / 10)\<rceil>))\<rfloor>"
  have ok: "\<forall>e \<in> set h0. slotId e \<in> slot_id ` set timeSlots
               \<and> getMaxScoreProviderForSlot st (slotId e) = Inr (Some (providerId e))"
    using getCurrentHighlighted_entry [OF h0(1)] by blast
  have first: "selectRandomSlotFromFirstPercent st h0 (2 / 10) rnd1 = Inr (Some ?s1)"
    by (rule selectRandomSlotFromFirstPercent_result(3) [OF r1 h0(2) _ ok]) simp
  obtain it where it: "planAfterFirst st h0 ?s1 rnd2 rnd3 = Inr it"
    using planAfterFirst_shape [OF r2 r3, of st h0 ?s1] by blast
  show ?thesis
    using idle h0 first it by (simp add: runSimulationIteration_def Let_def)
qed


subsection \<open>The highlighted list when every slot has a candidate\<close>

lemma toString_values:
  "toString 0 = ''0''" "toString 10 = ''10''" "toString 20 = ''20''" "toString 30 = ''30''"
  "toString 40 = ''40''" "toString 50 = ''50''" "toString 11 = ''11''" "toString 12 = ''12''"
  by code_simp+

lemma timeSlots_ids:
  "map slot_id timeSlots =
     [''10-0'', ''10-10'', ''10-20'', ''10-30'', ''10-40'', ''10-50'',
      ''11-0'', ''11-10'', ''11-20'', ''11-30'', ''11-40'', ''11-50'',
      ''12-0'', ''12-10'', ''12-20'', ''12-30'', ''12-40'', ''12-50'']"
  by (simp add: timeSlots_eq mkSlot_def mkSlotId_def toString_values)

lemma findIndexFrom_map:
  "findIndexFrom (\<lambda>s. f s = v) xs i = findIndexFrom (\<lambda>w. w = v) (map f xs) i"
  by (induction xs arbitrary: i) auto

lemma timeIndex_map:
  "map (\<lambda>s. findIndex (\<lambda>s'. slot_id s' = slot_id s) timeSlots) timeSlots = [0, 1, 2, 3, 4, 5, 6, 7, 8, 9, 10, 11, 12, 13, 14, 15, 16, 17]"
proof -
  have "map (\<lambda>s. findIndex (\<lambda>s'. slot_id s' = slot_id s) timeSlots) timeSlots
        = map (\<lambda>v. findIndexFrom (\<lambda>w. w = v) (map slot_id timeSlots) 0) (map slot_id timeSlots)"
    by (simp only: findIndex_def findIndexFrom_map [of slot_id] map_map comp_def)
  also have "\<dots> = [0, 1, 2, 3, 4, 5, 6, 7, 8, 9, 10, 11, 12, 13, 14, 15, 16, 17]"
    unfolding timeSlots_ids by simp
  finally show ?thesis .
qed

lemma highlighted_entries:
  "map (\<lambda>s. \<lparr>slotId = slot_id s, providerId = g (slot_id s),
              timeIndex = findIndex (\<lambda>s'. slot_id s' = slot_id s) timeSlots\<rparr>) timeSlots
   = highlightedList g"
proof -
  let ?ix = "\<lambda>s. findIndex (\<lambda>s'. slot_id s' = slot_id s) timeSlots"
  have "map (\<lambda>s. \<lparr>slotId = slot_id s, providerId = g (slot_id s), timeIndex = ?ix s\<rparr>) timeSlots
        = map (\<lambda>(i, sl). \<lparr>slotId = sl, providerId = g sl, timeIndex = i\<rparr>)
            (zip (map ?ix timeSlots) (map slot_id timeSlots))"
    by (simp add: zip_map_map comp_def map_idI zip_same_conv_map)
  also have "\<dots> = highlightedList g"
    unfolding timeIndex_map timeSlots_ids highlightedList_def by simp
  finally show ?thesis .
qed

lemma sort_highlightedList: "sort_key timeIndex (highlightedList g) = highlightedList g"
  by (rule sort_key_id_if_sorted) (simp add: highlightedList_def)

lemma getCurrentHighlighted_full:
  assumes "\<forall>s \<in> set timeSlots. availableProviders st (slot_id s) \<noteq> []"
  shows "getCurrentHighlighted st = Inr (highlightedList (resolvedProvider st))"
proof -
  let ?g = "\<lambda>s. \<lparr>slotId = slot_id s, providerId = resolvedProvider st (slot_id s),
              timeIndex = findIndex (\<lambda>s'. slot_id s' = slot_id s) timeSlots\<rparr>"
  have "currentHighlight st s = Inr (Some (?g s))" if "s \<in> set timeSlots" for s
  proof -
    have "slot_id s \<in> slot_id ` set timeSlots" using that by (rule imageI)
    then obtain r where r: "getMaxScoreProviderForSlot st (slot_id s) = Inr r"
      using resolve_total_timeSlots by blast
    with assms that have "r \<noteq> None" using resolve_none_iff [of st "slot_id s"] by auto
    then obtain i where "r = Some i" by auto
    with r show ?thesis by (simp add: currentHighlight_def resolvedProvider_def)
  qed
  then have "forEachSlot (currentHighlight st) timeSlots = Inr (map ?g timeSlots)"
    by (intro forEachSlot_map) simp
  then show ?thesis
    by (simp add: getCurrentHighlighted_def highlighted_entries sort_highlightedList)
qed

lemma resolvedProvider_eq:
  "getMaxScoreProviderForSlot st sl = Inr (Some i) \<Longrightarrow> resolvedProvider st sl = i"
  by (simp add: resolvedProvider_def)

subsection \<open>Sample iterations\<close>

lemma staleCheckState_fields:
  "selectedSlots staleCheckState =
     [(4, [(''12-20'', True), (''12-30'', True), (''12-40'', True), (''12-50'', True)]),
      (2, [(''12-20'', True), (''12-30'', True)]),
      (1, [(''12-20'', True)])]"
  "providers staleCheckState = initialProviders"
  "weight1 staleCheckState = 4 / 5" "weight2 staleCheckState = 1 / 5"
  "simulationInProgress staleCheckState = False"
  by (simp_all add: staleCheckState_def toggleSlot_def initialState_def Let_def)

lemma staleAfterFirst_fields:
  "selectedSlots staleAfterFirst =
     [(4, [(''12-20'', True), (''12-30'', True), (''12-40'', True), (''12-50'', True),
           (''10-0'', True)]),
      (2, [(''12-20'', True), (''12-30'', True)]),
      (1, [(''12-20'', True)])]"
  "providers staleAfterFirst = initialProviders"
  "weight1 staleAfterFirst = 4 / 5" "weight2 staleAfterFirst = 1 / 5"
  by (simp_all add: staleAfterFirst_def staleCheckState_fields setMark_def)

lemma initialProviders_id_4:
  "q \<in> set initialProviders \<Longrightarrow> provider_id q = 4
   \<Longrightarrow> q = \<lparr>provider_id = 4, name = ''NP Brown'', licenses = 1\<rparr>"
  by (auto simp: initialProviders_def)

lemma initialProviders_licenses:
  "q \<in> set initialProviders \<Longrightarrow> provider_id q \<noteq> 4 \<Longrightarrow> provider_id q \<noteq> 2
   \<Longrightarrow> provider_id q \<noteq> 1 \<Longrightarrow> 4 \<le> licenses q"
  "q \<in> set initialProviders \<Longrightarrow> provider_id q = 2 \<Longrightarrow> licenses q = 2"
  "q \<in> set initialProviders \<Longrightarrow> provider_id q = 1 \<Longrightarrow> licenses q = 3"
  "q \<in> set initialProviders \<Longrightarrow> licenses q \<noteq> 0"
  by (auto simp: initialProviders_def)

lemma availableProviders_initial:
  assumes "providers st = initialProviders"
  shows "distinct (availableProviders st sl)"
    and "set (availableProviders st sl) \<subseteq> set initialProviders"
    and "q \<in> set initialProviders \<Longrightarrow> \<not> isSlotSelected st (provider_id q) sl
         \<Longrightarrow> q \<in> set (availableProviders st sl)"
proof -
  have "distinct (providers st)" using assms by (simp add: initialProviders_def)
  then show "distinct (availableProviders st sl)"
    by (simp add: availableProviders_def sortedProviders_def)
  show "set (availableProviders st sl) \<subseteq> set initialProviders"
    using assms by (auto simp: availableProviders_def sortedProviders_def)
  show "q \<in> set (availableProviders st sl)"
    if "q \<in> set initialProviders" "\<not> isSlotSelected st (provider_id q) sl"
    using that assms by (simp add: availableProviders_def sortedProviders_def)
qed

lemma staleCheckState_counts:
  "getTotalSelectedSlots staleCheckState 4 = 4"
  "getTotalSelectedSlots staleCheckState 2 = 2"
  "getTotalSelectedSlots staleCheckState 1 = 1"
  "i \<noteq> 4 \<Longrightarrow> i \<noteq> 2 \<Longrightarrow> i \<noteq> 1 \<Longrightarrow> getTotalSelectedSlots staleCheckState i = 0"
  by (simp_all add: getTotalSelectedSlots_def countSelected_def staleCheckState_fields)

lemma staleCheckState_top:
  "roundedScore staleCheckState \<lparr>provider_id = 4, name = ''NP Brown'', licenses = 1\<rparr>
   = Fin (82 / 100)"
  using roundedScore_between
          [of "\<lparr>provider_id = 4, name = ''NP Brown'', licenses = 1\<rparr>" 82 staleCheckState]
  by (simp add: rawScore_def staleCheckState_counts staleCheckState_fields)

lemma staleCheckState_others:
  assumes "q \<in> set initialProviders" "provider_id q \<noteq> 4"
  shows "\<exists>b. roundedScore staleCheckState q = Fin b \<and> b < 82 / 100"
proof -
  have raw: "rawScore staleCheckState q < real_of_int 82 / 100"
  proof (cases "provider_id q = 2")
    case True
    then have "licenses q = 2" using assms(1) by (simp add: initialProviders_licenses)
    with True show ?thesis
      using exp_neg_6_5_upper
      by (simp add: rawScore_def staleCheckState_counts staleCheckState_fields)
  next
    case n2: False
    show ?thesis
    proof (cases "provider_id q = 1")
      case True
      then have "licenses q = 3" using assms(1) by (simp add: initialProviders_licenses)
      with True show ?thesis
        using exp_neg_le_3_10 [of "12 / 5"]
        by (simp add: rawScore_def staleCheckState_counts staleCheckState_fields)
    next
      case False
      then have "4 \<le> licenses q" using assms n2 by (simp add: initialProviders_licenses)
      then have "18 / 5 \<le> 6 / 5 * (real_of_int (licenses q) - 1)" by simp
      then have "exp (- (6 / 5 * (real_of_int (licenses q) - 1))) < 1 / 10"
        by (rule exp_neg_le_1_10)
      then show ?thesis
        using False n2 assms(2)
        by (simp add: rawScore_def staleCheckState_counts staleCheckState_fields)
    qed
  qed
  have "licenses q \<noteq> 0" using assms(1) by (rule initialProviders_licenses)
  then show ?thesis using raw roundedScore_below [of q staleCheckState 82] by simp
qed

lemma staleCheckState_resolve:
  assumes "\<not> isSlotSelected staleCheckState 4 sl"
  shows "getMaxScoreProviderForSlot staleCheckState sl = Inr (Some 4)"
proof -
  let ?p = "\<lparr>provider_id = 4, name = ''NP Brown'', licenses = 1\<rparr>"
  note av = availableProviders_initial [OF staleCheckState_fields(2), where sl = sl]
  have p: "?p \<in> set (availableProviders staleCheckState sl)"
    using assms by (intro av(3)) (simp_all add: initialProviders_def)
  have less: "\<forall>q \<in> set (availableProviders staleCheckState sl). q \<noteq> ?p \<longrightarrow>
                 (\<exists>b. roundedScore staleCheckState q = Fin b \<and> b < 82 / 100)"
  proof (intro ballI impI)
    fix q assume q: "q \<in> set (availableProviders staleCheckState sl)" "q \<noteq> ?p"
    then have mem: "q \<in> set initialProviders" using av(2) by blast
    with q(2) have "provider_id q \<noteq> 4" using initialProviders_id_4 by blast
    with mem show "\<exists>b. roundedScore staleCheckState q = Fin b \<and> b < 82 / 100"
      by (rule staleCheckState_others)
  qed
  have "getMaxScoreProviderForSlot staleCheckState sl = Inr (Some (provider_id ?p))"
    using p av(1) staleCheckState_top less by (rule resolve_unique_max)
  then show ?thesis by simp
qed

lemma available_when_unmarked:
  assumes "providers st = initialProviders" "map_of (selectedSlots st) 7 = None"
  shows "availableProviders st sl \<noteq> []"
proof -
  have "\<lparr>provider_id = 7, name = ''NP Taylor'', licenses = 15\<rparr> \<in> set (availableProviders st sl)"
    using assms(2)
    by (intro availableProviders_initial(3) [OF assms(1)])
       (simp_all add: initialProviders_def isSlotSelected_def lookupMark_def)
  then show ?thesis by auto
qed

lemma staleCheckState_highlighted:
  "getCurrentHighlighted staleCheckState = Inr (highlightedList (resolvedProvider staleCheckState))"
  by (intro getCurrentHighlighted_full ballI available_when_unmarked)
     (simp_all add: staleCheckState_fields)

lemma staleAfterFirst_highlighted:
  "getHighlightedSlots staleCheckState (setMark (selectedSlots staleCheckState) 4 ''10-0'')
   = Inr (highlightedList (resolvedProvider staleAfterFirst))"
proof -
  have "\<forall>p \<in> set (providers staleCheckState). licenses p \<noteq> 0"
    by (simp add: staleCheckState_fields initialProviders_def)
  then have "getHighlightedSlots staleCheckState (setMark (selectedSlots staleCheckState) 4 ''10-0'')
      = getCurrentHighlighted staleAfterFirst"
    unfolding staleAfterFirst_def by (rule getHighlightedSlots_eq_getCurrentHighlighted)
  also have "\<dots> = Inr (highlightedList (resolvedProvider staleAfterFirst))"
    by (intro getCurrentHighlighted_full ballI available_when_unmarked)
       (simp_all add: staleAfterFirst_fields)
  finally show ?thesis .
qed

lemma staleCheckState_first:
  "resolvedProvider staleCheckState ''10-0'' = 4"
  "getMaxScoreProviderForSlot staleCheckState ''10-40'' = Inr (Some 4)"
proof -
  have "\<not> isSlotSelected staleCheckState 4 ''10-0''"
    by (simp add: isSlotSelected_def lookupMark_def staleCheckState_fields)
  then show "resolvedProvider staleCheckState ''10-0'' = 4"
    by (intro resolvedProvider_eq staleCheckState_resolve)
  have "\<not> isSlotSelected staleCheckState 4 ''10-40''"
    by (simp add: isSlotSelected_def lookupMark_def staleCheckState_fields)
  then show "getMaxScoreProviderForSlot staleCheckState ''10-40'' = Inr (Some 4)"
    by (rule staleCheckState_resolve)
qed

lemma exp_neg_18_5: "18 / 5 \<le> x \<Longrightarrow> exp (- x) < 1 / 20" for x :: real
proof -
  assume x: "18 / 5 \<le> x"
  have "exp (- x) \<le> exp (- (18 / 5) :: real)" using x by simp
  also have "exp (- (18 / 5) :: real) = exp (of_nat 3 * (- (6 / 5)))" by simp
  also have "\<dots> = exp (- (6 / 5)) ^ 3" by (rule exp_of_nat_mult)
  also have "\<dots> < (35 / 100) ^ 3"
    using exp_neg_6_5_upper by (intro power_strict_mono) simp_all
  also have "\<dots> < (1 / 20 :: real)" by (simp add: power3_eq_cube)
  finally show ?thesis .
qed

lemma exp_neg_12_5: "12 / 5 \<le> x \<Longrightarrow> exp (- x) < 1 / 8" for x :: real
proof -
  assume x: "12 / 5 \<le> x"
  have "exp (- x) \<le> exp (- (12 / 5) :: real)" using x by simp
  also have "exp (- (12 / 5) :: real) = exp (of_nat 2 * (- (6 / 5)))" by simp
  also have "\<dots> = exp (- (6 / 5)) ^ 2" by (rule exp_of_nat_mult)
  also have "\<dots> < (35 / 100) ^ 2"
    using exp_neg_6_5_upper by (intro power_strict_mono) simp_all
  also have "\<dots> < (1 / 8 :: real)" by (simp add: power2_eq_square)
  finally show ?thesis .
qed

lemma staleAfterFirst_scores:
  "\<exists>b2 b1. b2 < 4 / 5 \<and> b1 < 4 / 5
     \<and> providerScores staleAfterFirst ''10-40'' =
         [\<lparr>score_id = 4, score = Fin (77 / 100)\<rparr>, \<lparr>score_id = 2, score = Fin b2\<rparr>,
          \<lparr>score_id = 1, score = Fin b1\<rparr>, \<lparr>score_id = 5, score = Fin (4 / 5)\<rparr>,
          \<lparr>score_id = 3, score = Fin (4 / 5)\<rparr>, \<lparr>score_id = 6, score = Fin (4 / 5)\<rparr>,
          \<lparr>score_id = 7, score = Fin (4 / 5)\<rparr>]"
proof -
  let ?st = staleAfterFirst
  have cnt: "getTotalSelectedSlots ?st 4 = 5" "getTotalSelectedSlots ?st 2 = 2"
      "getTotalSelectedSlots ?st 1 = 1" "getTotalSelectedSlots ?st 5 = 0"
      "getTotalSelectedSlots ?st 3 = 0" "getTotalSelectedSlots ?st 6 = 0"
      "getTotalSelectedSlots ?st 7 = 0"
    by (simp_all add: getTotalSelectedSlots_def countSelected_def staleAfterFirst_fields)
  have av: "availableProviders ?st ''10-40'' =
     [\<lparr>provider_id = 4, name = ''NP Brown'', licenses = 1\<rparr>,
      \<lparr>provider_id = 2, name = ''NP Johnson'', licenses = 2\<rparr>,
      \<lparr>provider_id = 1, name = ''NP Smith'', licenses = 3\<rparr>,
      \<lparr>provider_id = 5, name = ''NP Davis'', licenses = 4\<rparr>,
      \<lparr>provider_id = 3, name = ''NP Williams'', licenses = 5\<rparr>,
      \<lparr>provider_id = 6, name = ''NP Anderson'', licenses = 10\<rparr>,
      \<lparr>provider_id = 7, name = ''NP Taylor'', licenses = 15\<rparr>]"
    by (simp add: availableProviders_def sortedProviders_initial staleAfterFirst_fields
        isSlotSelected_def lookupMark_def)
  have r4: "roundedScore ?st \<lparr>provider_id = 4, name = ''NP Brown'', licenses = 1\<rparr>
            = Fin (77 / 100)"
    using roundedScore_between [of "\<lparr>provider_id = 4, name = ''NP Brown'', licenses = 1\<rparr>" 77 ?st]
    by (simp add: rawScore_def cnt staleAfterFirst_fields)
  obtain b2 where b2: "roundedScore ?st \<lparr>provider_id = 2, name = ''NP Johnson'', licenses = 2\<rparr>
            = Fin b2" "b2 < 4 / 5"
    using roundedScore_below [of "\<lparr>provider_id = 2, name = ''NP Johnson'', licenses = 2\<rparr>" ?st 80]
      exp_neg_6_5_upper
    by (auto simp: rawScore_def cnt staleAfterFirst_fields)
  obtain b1 where b1: "roundedScore ?st \<lparr>provider_id = 1, name = ''NP Smith'', licenses = 3\<rparr>
            = Fin b1" "b1 < 4 / 5"
    using roundedScore_below [of "\<lparr>provider_id = 1, name = ''NP Smith'', licenses = 3\<rparr>" ?st 80]
      exp_neg_12_5 [of "12 / 5"]
    by (auto simp: rawScore_def cnt staleAfterFirst_fields)
  have r5: "roundedScore ?st \<lparr>provider_id = 5, name = ''NP Davis'', licenses = 4\<rparr> = Fin (4 / 5)"
    using roundedScore_between [of "\<lparr>provider_id = 5, name = ''NP Davis'', licenses = 4\<rparr>" 80 ?st]
      exp_neg_18_5 [of "18 / 5"]
    by (simp add: rawScore_def cnt staleAfterFirst_fields)
  have r3: "roundedScore ?st \<lparr>provider_id = 3, name = ''NP Williams'', licenses = 5\<rparr> = Fin (4 / 5)"
    using roundedScore_between [of "\<lparr>provider_id = 3, name = ''NP Williams'', licenses = 5\<rparr>" 80 ?st]
      exp_neg_18_5 [of "24 / 5"]
    by (simp add: rawScore_def cnt staleAfterFirst_fields)
  have r6: "roundedScore ?st \<lparr>provider_id = 6, name = ''NP Anderson'', licenses = 10\<rparr> = Fin (4 / 5)"
    using roundedScore_between [of "\<lparr>provider_id = 6, name = ''NP Anderson'', licenses = 10\<rparr>" 80 ?st]
      exp_neg_18_5 [of "54 / 5"]
    by (simp add: rawScore_def cnt staleAfterFirst_fields)
  have r7: "roundedScore ?st \<lparr>provider_id = 7, name = ''NP Taylor'', licenses = 15\<rparr> = Fin (4 / 5)"
    using roundedScore_between [of "\<lparr>provider_id = 7, name = ''NP Taylor'', licenses = 15\<rparr>" 80 ?st]
      exp_neg_18_5 [of "84 / 5"]
    by (simp add: rawScore_def cnt staleAfterFirst_fields)
  show ?thesis
    using b2(2) b1(2)
    by (intro exI [of _ b2] exI [of _ b1]) (simp add: providerScores_def av r4 b2(1) b1(1) r5 r3 r6 r7)
qed

lemma slotHash_10_40: "slotHash ''10-40'' = Some 50"
  using slotHash_mkSlotId [of 10 40] by (simp add: mkSlotId_def toString_values)

lemma staleAfterFirst_resolved: "getMaxScoreProviderForSlot staleAfterFirst ''10-40'' = Inr (Some 6)"
proof -
  obtain b2 b1 where b: "b2 < 4 / 5" "b1 < 4 / 5"
    and ps: "providerScores staleAfterFirst ''10-40'' =
         [\<lparr>score_id = 4, score = Fin (77 / 100)\<rparr>, \<lparr>score_id = 2, score = Fin b2\<rparr>,
          \<lparr>score_id = 1, score = Fin b1\<rparr>, \<lparr>score_id = 5, score = Fin (4 / 5)\<rparr>,
          \<lparr>score_id = 3, score = Fin (4 / 5)\<rparr>, \<lparr>score_id = 6, score = Fin (4 / 5)\<rparr>,
          \<lparr>score_id = 7, score = Fin (4 / 5)\<rparr>]"
    using staleAfterFirst_scores by blast
  have mx: "Math_max (map score (providerScores staleAfterFirst ''10-40'')) = Fin (4 / 5)"
    using b by (simp add: ps Math_max_def num_max_def)
  have tied: "maxScoreProvidersOf (providerScores staleAfterFirst ''10-40'') =
         [\<lparr>score_id = 5, score = Fin (4 / 5)\<rparr>,
          \<lparr>score_id = 3, score = Fin (4 / 5)\<rparr>, \<lparr>score_id = 6, score = Fin (4 / 5)\<rparr>,
          \<lparr>score_id = 7, score = Fin (4 / 5)\<rparr>]"
    unfolding maxScoreProvidersOf_def Let_def mx using b by (simp add: ps)
  have "selectByMaxScore ''10-40'' (providerScores staleAfterFirst ''10-40'') = Inr 6"
    by (simp add: selectByMaxScore_def Let_def tied slotHash_10_40 js_rem_def)
  moreover have "availableProviders staleAfterFirst ''10-40'' \<noteq> []"
    by (intro available_when_unmarked) (simp_all add: staleAfterFirst_fields)
  ultimately show ?thesis by (simp add: getMaxScoreProviderForSlot_def)
qed

lemma twoCommitted_fields:
  "selectedSlots twoCommitted = [(4, [(''10-0'', True), (''10-40'', True)])]"
  "providers twoCommitted = initialProviders"
  "weight1 twoCommitted = 4 / 5" "weight2 twoCommitted = 1 / 5"
  by (simp_all add: twoCommitted_def oneCommitted_def toggleSlot_def initialState_def Let_def)

lemma initialState_fields:
  "selectedSlots initialState = []"
  "providers initialState = initialProviders"
  "weight1 initialState = 4 / 5" "weight2 initialState = 1 / 5"
  "simulationInProgress initialState = False"
  by (simp_all add: initialState_def)

lemma initialProviders_licenses_ge:
  "q \<in> set initialProviders \<Longrightarrow> provider_id q \<noteq> 4 \<Longrightarrow> 2 \<le> licenses q"
  by (auto simp: initialProviders_def)

lemma provider4_dominates:
  assumes pr: "providers st = initialProviders"
    and w: "weight1 st = 4 / 5" "weight2 st = 1 / 5"
    and c: "getTotalSelectedSlots st 4 \<le> 2"
    and free: "\<not> isSlotSelected st 4 sl"
  shows "getMaxScoreProviderForSlot st sl = Inr (Some 4)"
proof -
  let ?p = "\<lparr>provider_id = 4, name = ''NP Brown'', licenses = 1\<rparr>"
  note av = availableProviders_initial [OF pr, where sl = sl]
  have p: "?p \<in> set (availableProviders st sl)"
    using free by (intro av(3)) (simp_all add: initialProviders_def)
  have "real (getTotalSelectedSlots st 4) \<le> 2" using c by simp
  then have "real_of_int 91 / 100 \<le> rawScore st ?p"
    by (simp add: rawScore_def w)
  then obtain a where a: "roundedScore st ?p = Fin a" "91 / 100 \<le> a"
    using roundedScore_at_least [of ?p 91 st] by auto
  have less: "\<forall>q \<in> set (availableProviders st sl). q \<noteq> ?p \<longrightarrow>
                 (\<exists>b. roundedScore st q = Fin b \<and> b < a)"
  proof (intro ballI impI)
    fix q assume q: "q \<in> set (availableProviders st sl)" "q \<noteq> ?p"
    then have mem: "q \<in> set initialProviders" using av(2) by blast
    with q(2) have "provider_id q \<noteq> 4" using initialProviders_id_4 by blast
    with mem have lic: "2 \<le> licenses q" by (rule initialProviders_licenses_ge)
    then have "exp (- (6 / 5 * (real_of_int (licenses q) - 1))) \<le> exp (- (6 / 5) :: real)"
      by simp
    then have e: "exp (- (6 / 5 * (real_of_int (licenses q) - 1))) < 35 / 100"
      using exp_neg_6_5_upper by linarith
    let ?X = "(18 - real (getTotalSelectedSlots st (provider_id q))) / 18"
    let ?E = "exp (- (6 / 5 * (real_of_int (licenses q) - 1)))"
    have x: "?X \<le> 1" by simp
    have eq: "rawScore st q = 4 / 5 * ?X + 1 / 5 * ?E"
      by (simp only: rawScore_def w)
    have "rawScore st q < 91 / 100"
      unfolding eq using x e by linarith
    then have "rawScore st q < real_of_int 91 / 100" by simp
    moreover have "licenses q \<noteq> 0" using lic by simp
    ultimately obtain b where "roundedScore st q = Fin b" "b < 91 / 100"
      using roundedScore_below [of q st 91] by auto
    with a(2) show "\<exists>b. roundedScore st q = Fin b \<and> b < a" by auto
  qed
  have "getMaxScoreProviderForSlot st sl = Inr (Some (provider_id ?p))"
    using p av(1) a(1) less by (rule resolve_unique_max)
  then show ?thesis by simp
qed

lemma snapshot_highlighted:
  assumes "providers st = initialProviders" "map_of ws 7 = None"
  shows "getHighlightedSlots st ws
         = Inr (highlightedList (resolvedProvider (st\<lparr>selectedSlots := ws\<rparr>)))"
proof -
  have "\<forall>p \<in> set (providers st). licenses p \<noteq> 0"
    using assms(1) by (simp add: initialProviders_def)
  then have "getHighlightedSlots st ws = getCurrentHighlighted (st\<lparr>selectedSlots := ws\<rparr>)"
    by (rule getHighlightedSlots_eq_getCurrentHighlighted)
  also have "\<dots> = Inr (highlightedList (resolvedProvider (st\<lparr>selectedSlots := ws\<rparr>)))"
    using assms by (intro getCurrentHighlighted_full ballI available_when_unmarked) simp_all
  finally show ?thesis .
qed

lemma first_pick_zero:
  assumes "getCurrentHighlighted st = Inr (highlightedList g)"
  shows "selectRandomSlotFromFirstPercent st (highlightedList g) (2 / 10) 0
         = Inr (Some \<lparr>slotId = ''10-0'', providerId = g ''10-0'', timeIndex = 0\<rparr>)"
proof -
  let ?h0 = "highlightedList g"
  have ne: "?h0 \<noteq> []" by (simp add: highlightedList_def)
  have ok: "\<forall>e \<in> set ?h0. slotId e \<in> slot_id ` set timeSlots
               \<and> getMaxScoreProviderForSlot st (slotId e) = Inr (Some (providerId e))"
    using getCurrentHighlighted_entry [OF assms] by blast
  have "selectRandomSlotFromFirstPercent st ?h0 (2 / 10) 0
        = Inr (Some (?h0 ! nat \<lfloor>0 * real (nat (max 1 \<lceil>real (length ?h0) * (2 / 10)\<rceil>))\<rfloor>))"
    by (rule selectRandomSlotFromFirstPercent_result(3) [OF _ _ ne _ ok]) simp_all
  also have "?h0 ! nat \<lfloor>0 * real (nat (max 1 \<lceil>real (length ?h0) * (2 / 10)\<rceil>))\<rfloor> = ?h0 ! 0"
    by simp
  also have "?h0 ! 0 = \<lparr>slotId = ''10-0'', providerId = g ''10-0'', timeIndex = 0\<rparr>"
    by (simp add: highlightedList_def)
  finally show ?thesis .
qed

lemma second_pick_zero:
  "selectRandomSlotFromRange st (highlightedList g) (2 / 10) (5 / 10) 0
   = (case getMaxScoreProviderForSlot st ''10-40'' of
        Inl e \<Rightarrow> Inl e
      | Inr r \<Rightarrow> if r = Some (g ''10-40'')
                 then Inr (Some \<lparr>slotId = ''10-40'', providerId = g ''10-40'', timeIndex = 4\<rparr>)
                 else Inr None)"
  by (simp add: selectRandomSlotFromRange_def highlightedList_def slice_def pickVerified_def Let_def
      split: sum.splits)

lemma third_pick_zero:
  "selectRandomSlotFromRange st (highlightedList g) (5 / 10) (7 / 10) 0
   = (case getMaxScoreProviderForSlot st ''11-30'' of
        Inl e \<Rightarrow> Inl e
      | Inr r \<Rightarrow> if r = Some (g ''11-30'')
                 then Inr (Some \<lparr>slotId = ''11-30'', providerId = g ''11-30'', timeIndex = 9\<rparr>)
                 else Inr None)"
  by (simp add: selectRandomSlotFromRange_def highlightedList_def slice_def pickVerified_def Let_def
      split: sum.splits)

lemma length_highlightedList: "length (highlightedList g) = 18"
  by (simp add: highlightedList_def)

lemma initialState_run:
  "runSimulationIteration initialState 0 0 0 =
     Inr (initialState\<lparr>newlySelectedSlots := [],
            pendingSelectionSlots := [(4, [(''10-0'', True), (''10-40'', True), (''11-30'', True)])],
            simulationInProgress := True\<rparr>,
          Some \<lparr>highlightedSlots = highlightedList (resolvedProvider initialState),
                slot1 = \<lparr>slotId = ''10-0'', providerId = 4, timeIndex = 0\<rparr>,
                workingState1 = selectedSlots oneCommitted,
                highlightedAfter1 = highlightedList (resolvedProvider oneCommitted),
                slot2 = Some \<lparr>slotId = ''10-40'', providerId = 4, timeIndex = 4\<rparr>,
                workingState2 = selectedSlots twoCommitted,
                highlightedAfter2 = highlightedList (resolvedProvider twoCommitted),
                slot3 = Some \<lparr>slotId = ''11-30'', providerId = 4, timeIndex = 9\<rparr>\<rparr>)"
proof -
  have r0: "getMaxScoreProviderForSlot initialState sl = Inr (Some 4)" for sl
    by (rule provider4_dominates)
       (simp_all add: initialState_fields getTotalSelectedSlots_def countSelected_def
          isSlotSelected_def lookupMark_def)
  have r1: "getMaxScoreProviderForSlot oneCommitted ''10-40'' = Inr (Some 4)"
    by (rule provider4_dominates)
       (simp_all add: oneCommitted_fields getTotalSelectedSlots_def countSelected_def
          isSlotSelected_def lookupMark_def)
  have r2: "getMaxScoreProviderForSlot twoCommitted ''11-30'' = Inr (Some 4)"
    by (rule provider4_dominates)
       (simp_all add: twoCommitted_fields getTotalSelectedSlots_def countSelected_def
          isSlotSelected_def lookupMark_def)
  have s1: "initialState\<lparr>selectedSlots := [(4, [(''10-0'', True)])]\<rparr> = oneCommitted"
    by (simp add: oneCommitted_def toggleSlot_def initialState_def)
  have s2: "initialState\<lparr>selectedSlots := [(4, [(''10-0'', True), (''10-40'', True)])]\<rparr>
            = twoCommitted"
    by (simp add: twoCommitted_def oneCommitted_def toggleSlot_def initialState_def)
  have h0: "getCurrentHighlighted initialState
            = Inr (highlightedList (resolvedProvider initialState))"
    by (intro getCurrentHighlighted_full ballI available_when_unmarked)
       (simp_all add: initialState_fields)
  have h1: "getHighlightedSlots initialState [(4, [(''10-0'', True)])]
            = Inr (highlightedList (resolvedProvider oneCommitted))"
    using snapshot_highlighted [of initialState "[(4, [(''10-0'', True)])]"]
    by (simp add: initialState_fields s1)
  have h2: "getHighlightedSlots initialState [(4, [(''10-0'', True), (''10-40'', True)])]
            = Inr (highlightedList (resolvedProvider twoCommitted))"
    using snapshot_highlighted [of initialState "[(4, [(''10-0'', True), (''10-40'', True)])]"]
    by (simp add: initialState_fields s2)
  have first: "selectRandomSlotFromFirstPercent initialState
       (highlightedList (resolvedProvider initialState)) (2 / 10) 0
     = Inr (Some \<lparr>slotId = ''10-0'', providerId = 4, timeIndex = 0\<rparr>)"
    using first_pick_zero [OF h0] by (simp add: resolvedProvider_eq [OF r0])
  have second: "selectRandomSlotFromRange initialState
       (highlightedList (resolvedProvider oneCommitted)) (2 / 10) (5 / 10) 0
     = Inr (Some \<lparr>slotId = ''10-40'', providerId = 4, timeIndex = 4\<rparr>)"
    using second_pick_zero [of initialState "resolvedProvider oneCommitted"]
    by (simp add: r0 resolvedProvider_eq [OF r1])
  have third: "selectRandomSlotFromRange initialState
       (highlightedList (resolvedProvider twoCommitted)) (5 / 10) (7 / 10) 0
     = Inr (Some \<lparr>slotId = ''11-30'', providerId = 4, timeIndex = 9\<rparr>)"
    using third_pick_zero [of initialState "resolvedProvider twoCommitted"]
    by (simp add: r0 resolvedProvider_eq [OF r2])
  have plan: "planAfterFirst initialState (highlightedList (resolvedProvider initialState))
        \<lparr>slotId = ''10-0'', providerId = 4, timeIndex = 0\<rparr> 0 0
      = Inr \<lparr>highlightedSlots = highlightedList (resolvedProvider initialState),
                slot1 = \<lparr>slotId = ''10-0'', providerId = 4, timeIndex = 0\<rparr>,
                workingState1 = selectedSlots oneCommitted,
                highlightedAfter1 = highlightedList (resolvedProvider oneCommitted),
                slot2 = Some \<lparr>slotId = ''10-40'', providerId = 4, timeIndex = 4\<rparr>,
                workingState2 = selectedSlots twoCommitted,
                highlightedAfter2 = highlightedList (resolvedProvider twoCommitted),
                slot3 = Some \<lparr>slotId = ''11-30'', providerId = 4, timeIndex = 9\<rparr>\<rparr>"
    using second third
    by (simp add: planAfterFirst_def initialState_fields setMark_def markSelection_def h1 h2
        length_highlightedList oneCommitted_fields twoCommitted_fields)
  show ?thesis
    using first
    by (simp add: runSimulationIteration_def initialState_fields h0 length_highlightedList plan
        setMark_def markSelection_def)
qed

lemma staleCheckState_run:
  "runSimulationIteration staleCheckState 0 0 0 =
     Inr (staleCheckState\<lparr>newlySelectedSlots := [],
            pendingSelectionSlots := [(4, [(''10-0'', True)])],
            simulationInProgress := True\<rparr>,
          Some \<lparr>highlightedSlots = highlightedList (resolvedProvider staleCheckState),
                slot1 = \<lparr>slotId = ''10-0'', providerId = 4, timeIndex = 0\<rparr>,
                workingState1 = selectedSlots staleAfterFirst,
                highlightedAfter1 = highlightedList (resolvedProvider staleAfterFirst),
                slot2 = None,
                workingState2 = selectedSlots staleAfterFirst,
                highlightedAfter2 = [],
                slot3 = None\<rparr>)"
proof -
  have first: "selectRandomSlotFromFirstPercent staleCheckState
       (highlightedList (resolvedProvider staleCheckState)) (2 / 10) 0
     = Inr (Some \<lparr>slotId = ''10-0'', providerId = 4, timeIndex = 0\<rparr>)"
    using first_pick_zero [OF staleCheckState_highlighted]
    by (simp add: staleCheckState_first)
  have second: "selectRandomSlotFromRange staleCheckState
       (highlightedList (resolvedProvider staleAfterFirst)) (2 / 10) (5 / 10) 0 = Inr None"
    using second_pick_zero [of staleCheckState "resolvedProvider staleAfterFirst"]
    by (simp add: staleCheckState_first resolvedProvider_eq [OF staleAfterFirst_resolved])
  have ws: "setMark (selectedSlots staleCheckState) 4 ''10-0'' = selectedSlots staleAfterFirst"
    by (simp add: staleAfterFirst_def)
  have plan: "planAfterFirst staleCheckState (highlightedList (resolvedProvider staleCheckState))
        \<lparr>slotId = ''10-0'', providerId = 4, timeIndex = 0\<rparr> 0 0
      = Inr \<lparr>highlightedSlots = highlightedList (resolvedProvider staleCheckState),
                slot1 = \<lparr>slotId = ''10-0'', providerId = 4, timeIndex = 0\<rparr>,
                workingState1 = selectedSlots staleAfterFirst,
                highlightedAfter1 = highlightedList (resolvedProvider staleAfterFirst),
                slot2 = None,
                workingState2 = selectedSlots staleAfterFirst,
                highlightedAfter2 = [],
                slot3 = None\<rparr>"
    using second staleAfterFirst_highlighted
    by (simp add: planAfterFirst_def ws markSelection_def length_highlightedList Let_def)
  show ?thesis
    using first
    by (simp add: runSimulationIteration_def staleCheckState_fields staleCheckState_highlighted
        length_highlightedList plan setMark_def markSelection_def)
qed

lemma initialState_highlighted:
  "getCurrentHighlighted initialState = Inr (highlightedList (resolvedProvider initialState))"
  by (intro getCurrentHighlighted_full ballI available_when_unmarked)
     (simp_all add: initialState_fields)

lemma highlightedList_nonempty: "highlightedList g \<noteq> []"
  by (simp add: highlightedList_def)

text \<open>The positions of a band, and the draw of \<open>selectRandomSlotFromRange\<close>.\<close>

lemma inBand_iff_ceiling:
  assumes "hi \<le> 1"
  shows "inBand i n lo hi \<longleftrightarrow> \<lceil>real n * lo\<rceil> \<le> int i \<and> int i < \<lceil>real n * hi\<rceil>"
proof (cases "n = 0")
  case True
  then show ?thesis by (simp add: inBand_def)
next
  case False
  then have n: "0 < n" by simp
  have "real n * hi \<le> real n" using assms by (simp add: mult_left_le)
  then have e: "\<lceil>real n * hi\<rceil> \<le> int n" by (simp add: ceiling_le_iff)
  show ?thesis
  proof
    assume "inBand i n lo hi"
    then show "\<lceil>real n * lo\<rceil> \<le> int i \<and> int i < \<lceil>real n * hi\<rceil>"
      using ceiling_band [OF n, of lo i hi] by (simp add: inBand_def)
  next
    assume a: "\<lceil>real n * lo\<rceil> \<le> int i \<and> int i < \<lceil>real n * hi\<rceil>"
    then have "i < n" using e by linarith
    with a show "inBand i n lo hi"
      using ceiling_band [OF n, of lo i hi] by (simp add: inBand_def)
  qed
qed

lemma selectRandomSlotFromRange_empty_band:
  assumes "\<lceil>real (length hs) * hi\<rceil> \<le> \<lceil>real (length hs) * lo\<rceil>"
  shows "selectRandomSlotFromRange st hs lo hi r = Inr None"
  using assms by (simp add: selectRandomSlotFromRange_def Let_def)

lemma selectRandomSlotFromRange_draw:
  assumes r: "0 \<le> r" "r < 1" and b: "0 \<le> lo" "hi \<le> 1"
    and ids: "\<forall>e \<in> set hs. slotId e \<in> slot_id ` set timeSlots"
    and band: "\<lceil>real (length hs) * lo\<rceil> < \<lceil>real (length hs) * hi\<rceil>"
  shows "inBand (nat \<lceil>real (length hs) * lo\<rceil>
                 + nat \<lfloor>r * real (nat (\<lceil>real (length hs) * hi\<rceil> - \<lceil>real (length hs) * lo\<rceil>))\<rfloor>)
           (length hs) lo hi"
    and "selectRandomSlotFromRange st hs lo hi r =
           Inr (if getMaxScoreProviderForSlot st
                     (slotId (hs ! (nat \<lceil>real (length hs) * lo\<rceil>
                        + nat \<lfloor>r * real (nat (\<lceil>real (length hs) * hi\<rceil> - \<lceil>real (length hs) * lo\<rceil>))\<rfloor>)))
                   = Inr (Some (providerId (hs ! (nat \<lceil>real (length hs) * lo\<rceil>
                        + nat \<lfloor>r * real (nat (\<lceil>real (length hs) * hi\<rceil> - \<lceil>real (length hs) * lo\<rceil>))\<rfloor>))))
                then Some (hs ! (nat \<lceil>real (length hs) * lo\<rceil>
                        + nat \<lfloor>r * real (nat (\<lceil>real (length hs) * hi\<rceil> - \<lceil>real (length hs) * lo\<rceil>))\<rfloor>))
                else None)"
proof -
  let ?n = "length hs"
  let ?start = "\<lceil>real ?n * lo\<rceil>"
  let ?end = "\<lceil>real ?n * hi\<rceil>"
  let ?m = "nat (?end - ?start)"
  let ?i = "nat \<lfloor>r * real ?m\<rfloor>"
  let ?j = "nat ?start + ?i"
  note fb = ceiling_fraction_bounds [OF b, of ?n]
  have hsne: "hs \<noteq> []" using band by auto
  have se: "?start \<le> ?end" using band by simp
  let ?range = "slice ?start ?end hs"
  note sl = slice_inner [OF fb(1) se fb(2)]
  have len: "length ?range = ?m" by (rule sl(1))
  have mpos: "0 < ?m" using band by simp
  then have ne: "?range \<noteq> []" using len by auto
  have i: "?i < ?m" by (rule random_index(3) [OF r mpos])
  then have nth: "?range ! ?i = hs ! ?j" by (rule sl(2))
  have jlo: "?start \<le> int ?j" using fb(1) by simp
  have jhi: "int ?j < ?end" using i fb(1) by linarith
  have "?start \<le> int ?j \<and> int ?j < ?end" using jlo jhi by blast
  then show "inBand ?j ?n lo hi" by (rule inBand_iff_ceiling [OF b(2), THEN iffD2])
  have rids: "\<forall>e \<in> set ?range. slotId e \<in> slot_id ` set timeSlots"
  proof
    fix e assume "e \<in> set ?range"
    then have "e \<in> set hs"
      by (auto simp: slice_def Let_def dest: in_set_takeD in_set_dropD)
    with ids show "slotId e \<in> slot_id ` set timeSlots" by blast
  qed
  from pickVerified_result [OF r ne rids, of st]
  have pv: "pickVerified st ?range r =
        Inr (if getMaxScoreProviderForSlot st (slotId (hs ! ?j)) = Inr (Some (providerId (hs ! ?j)))
             then Some (hs ! ?j) else None)"
    unfolding len nth by simp
  have sel: "selectRandomSlotFromRange st hs lo hi r = pickVerified st ?range r"
    using hsne band ne by (simp add: selectRandomSlotFromRange_def Let_def)
  show "selectRandomSlotFromRange st hs lo hi r =
        Inr (if getMaxScoreProviderForSlot st (slotId (hs ! ?j)) = Inr (Some (providerId (hs ! ?j)))
             then Some (hs ! ?j) else None)"
    unfolding sel pv ..
qed

lemma planAfterFirst_selections:
  assumes "planAfterFirst st hs s1 rnd2 rnd3 = Inr it"
  shows "selectRandomSlotFromRange st (highlightedAfter1 it) (2 / 10) (5 / 10) rnd2
           = Inr (slot2 it)"
    and "selectRandomSlotFromRange st (highlightedAfter2 it) (5 / 10) (7 / 10) rnd3
           = Inr (slot3 it)"
  using assms
  unfolding planAfterFirst_def Let_def range_guard
  by (auto split: sum.splits)

subsection \<open>The three stages of an iteration\<close>

text \<open>
  C4. In an iteration that starts (none in flight, some slot highlighted), with
  \<open>rnd1\<close>, \<open>rnd2\<close>, \<open>rnd3\<close> in \<open>[0, 1)\<close> the values of the random source:
  stage 1 takes the entry of \<open>H0\<close> at position \<open>floor (rnd1 * k)\<close> among the first
  \<open>k = max 1 (ceiling (0.2 * |H0|))\<close> entries, each position being taken on an interval
  of \<open>rnd1\<close> of length \<open>1 / k\<close>. The first working store is the store with \<open>slot1\<close>
  marked, and \<open>H1\<close> is computed on it. The positions of \<open>H1\<close> whose rank fraction lies in
  \<open>[0.2, 0.5)\<close> are those from \<open>lo = ceiling (0.2 * |H1|)\<close> up to, not including,
  \<open>hi = ceiling (0.5 * |H1|)\<close>. When there is none, stage 2 selects nothing; otherwise it
  draws position \<open>lo + floor (rnd2 * (hi - lo))\<close>, each position of the band on an interval
  of \<open>rnd2\<close> of length \<open>1 / (hi - lo)\<close>, and \<open>slot2\<close> is the entry of \<open>H1\<close> there when
  \<open>getMaxScoreProviderForSlot\<close> returns its provider for its slot, and nothing when not.
  Stage 3 selects nothing when stage 2 selected nothing; when stage 2 selected, the second
  working store has \<open>slot1\<close> and \<open>slot2\<close> marked, \<open>H2\<close> is computed on it, and \<open>slot3\<close> is
  drawn from \<open>H2\<close> in the same way with \<open>rnd3\<close> and the fractions \<open>[0.5, 0.7)\<close>.
\<close>

theorem iteration_samples_from_bands:
  assumes "\<not> simulationInProgress st"
    and "0 \<le> rnd1" "rnd1 < 1" and "0 \<le> rnd2" "rnd2 < 1" and "0 \<le> rnd3" "rnd3 < 1"
    and "getCurrentHighlighted st = Inr h0" "h0 \<noteq> []"
  shows "\<exists>st' it. runSimulationIteration st rnd1 rnd2 rnd3 = Inr (st', Some it)
      \<and> highlightedSlots it = h0
      \<and> (let k = nat (max 1 \<lceil>real (length h0) * (2 / 10)\<rceil>)
         in k \<le> length h0 \<and> nat \<lfloor>rnd1 * real k\<rfloor> < k
            \<and> slot1 it = h0 ! nat \<lfloor>rnd1 * real k\<rfloor>
            \<and> (\<forall>i. nat \<lfloor>rnd1 * real k\<rfloor> = i
                    \<longleftrightarrow> real i / real k \<le> rnd1 \<and> rnd1 < (real i + 1) / real k))
      \<and> workingState1 it
          = setMark (selectedSlots st) (providerId (slot1 it)) (slotId (slot1 it))
      \<and> lookupMark (workingState1 it) (providerId (slot1 it)) (slotId (slot1 it))
      \<and> getHighlightedSlots st (workingState1 it) = Inr (highlightedAfter1 it)
      \<and> (let h1 = highlightedAfter1 it;
              lo = \<lceil>real (length h1) * (2 / 10)\<rceil>;
              hi = \<lceil>real (length h1) * (5 / 10)\<rceil>;
              m = nat (hi - lo);
              j = nat lo + nat \<lfloor>rnd2 * real m\<rfloor>
          in (\<forall>i. inBand i (length h1) (2 / 10) (5 / 10) \<longleftrightarrow> lo \<le> int i \<and> int i < hi)
             \<and> (hi \<le> lo \<longrightarrow> slot2 it = None)
             \<and> (lo < hi \<longrightarrow>
                   inBand j (length h1) (2 / 10) (5 / 10)
                   \<and> (\<forall>i. nat \<lfloor>rnd2 * real m\<rfloor> = i
                          \<longleftrightarrow> real i / real m \<le> rnd2 \<and> rnd2 < (real i + 1) / real m)
                   \<and> slot2 it
                       = (if getMaxScoreProviderForSlot st (slotId (h1 ! j))
                               = Inr (Some (providerId (h1 ! j)))
                          then Some (h1 ! j) else None)))
      \<and> (slot2 it = None \<longrightarrow> slot3 it = None)
      \<and> (\<forall>s2. slot2 it = Some s2 \<longrightarrow>
            workingState2 it = setMark (workingState1 it) (providerId s2) (slotId s2)
            \<and> lookupMark (workingState2 it) (providerId (slot1 it)) (slotId (slot1 it))
            \<and> lookupMark (workingState2 it) (providerId s2) (slotId s2)
            \<and> getHighlightedSlots st (workingState2 it) = Inr (highlightedAfter2 it)
            \<and> (let h2 = highlightedAfter2 it;
                    lo = \<lceil>real (length h2) * (5 / 10)\<rceil>;
                    hi = \<lceil>real (length h2) * (7 / 10)\<rceil>;
                    m = nat (hi - lo);
                    j = nat lo + nat \<lfloor>rnd3 * real m\<rfloor>
                in (\<forall>i. inBand i (length h2) (5 / 10) (7 / 10) \<longleftrightarrow> lo \<le> int i \<and> int i < hi)
                   \<and> (hi \<le> lo \<longrightarrow> slot3 it = None)
                   \<and> (lo < hi \<longrightarrow>
                         inBand j (length h2) (5 / 10) (7 / 10)
                         \<and> (\<forall>i. nat \<lfloor>rnd3 * real m\<rfloor> = i
                                \<longleftrightarrow> real i / real m \<le> rnd3 \<and> rnd3 < (real i + 1) / real m)
                         \<and> slot3 it
                             = (if getMaxScoreProviderForSlot st (slotId (h2 ! j))
                                     = Inr (Some (providerId (h2 ! j)))
                                then Some (h2 ! j) else None))))
      \<and> (\<forall>s. slot2 it = Some s \<longrightarrow>
             (\<exists>j. inBand j (length (highlightedAfter1 it)) (2 / 10) (5 / 10)
                  \<and> s = highlightedAfter1 it ! j))
      \<and> ((\<forall>j. \<not> inBand j (length (highlightedAfter1 it)) (2 / 10) (5 / 10)) \<longrightarrow> slot2 it = None)
      \<and> (\<forall>s. slot3 it = Some s \<longrightarrow>
             slot2 it \<noteq> None
             \<and> (\<exists>j. inBand j (length (highlightedAfter2 it)) (5 / 10) (7 / 10)
                  \<and> s = highlightedAfter2 it ! j))"
proof -
  let ?k = "nat (max 1 \<lceil>real (length h0) * (2 / 10)\<rceil>)"
  let ?s1 = "h0 ! nat \<lfloor>rnd1 * real ?k\<rfloor>"
  obtain st' it where run: "runSimulationIteration st rnd1 rnd2 rnd3 = Inr (st', Some it)"
      and plan: "planAfterFirst st h0 ?s1 rnd2 rnd3 = Inr it"
    using runSimulationIteration_shape [OF assms] by blast
  have ok: "\<forall>e \<in> set h0. slotId e \<in> slot_id ` set timeSlots
               \<and> getMaxScoreProviderForSlot st (slotId e) = Inr (Some (providerId e))"
    using getCurrentHighlighted_entry [OF assms(8)] by blast
  have k: "?k \<le> length h0" "nat \<lfloor>rnd1 * real ?k\<rfloor> < ?k"
    using selectRandomSlotFromFirstPercent_result(1,2) [OF assms(2,3) assms(9) _ ok, of "2 / 10"]
    by simp_all
  then have kpos: "0 < ?k" by linarith
  have unif: "\<forall>i. nat \<lfloor>rnd1 * real ?k\<rfloor> = i
                \<longleftrightarrow> real i / real ?k \<le> rnd1 \<and> rnd1 < (real i + 1) / real ?k"
    using random_index_uniform [OF assms(2) kpos] by blast
  from planAfterFirst_shape [OF assms(4-7), of st h0 ?s1] plan
  have shape: "highlightedSlots it = h0" "slot1 it = ?s1"
      "workingState1 it = setMark (selectedSlots st) (providerId ?s1) (slotId ?s1)"
      "getHighlightedSlots st (workingState1 it) = Inr (highlightedAfter1 it)"
      "workingState2 it = markSelection (workingState1 it) (slot2 it)"
      "slot2 it \<noteq> None \<longrightarrow> getHighlightedSlots st (workingState2 it) = Inr (highlightedAfter2 it)"
      "slot2 it = None \<longrightarrow> highlightedAfter2 it = [] \<and> slot3 it = None"
      "\<forall>s. slot2 it = Some s \<longrightarrow>
             (\<exists>j. inBand j (length (highlightedAfter1 it)) (2 / 10) (5 / 10)
                  \<and> s = highlightedAfter1 it ! j)"
      "(\<forall>j. \<not> inBand j (length (highlightedAfter1 it)) (2 / 10) (5 / 10)) \<longrightarrow> slot2 it = None"
      "\<forall>s. slot3 it = Some s \<longrightarrow>
             (\<exists>j. inBand j (length (highlightedAfter2 it)) (5 / 10) (7 / 10)
                  \<and> s = highlightedAfter2 it ! j)"
    by auto
  note sel = planAfterFirst_selections [OF plan]
  have stage1: "let k = nat (max 1 \<lceil>real (length h0) * (2 / 10)\<rceil>)
         in k \<le> length h0 \<and> nat \<lfloor>rnd1 * real k\<rfloor> < k
            \<and> slot1 it = h0 ! nat \<lfloor>rnd1 * real k\<rfloor>
            \<and> (\<forall>i. nat \<lfloor>rnd1 * real k\<rfloor> = i
                    \<longleftrightarrow> real i / real k \<le> rnd1 \<and> rnd1 < (real i + 1) / real k)"
    unfolding Let_def using k shape(2) unif by blast
  have w1: "workingState1 it
          = setMark (selectedSlots st) (providerId (slot1 it)) (slotId (slot1 it))"
    using shape(2,3) by simp
  have m1: "lookupMark (workingState1 it) (providerId (slot1 it)) (slotId (slot1 it))"
    unfolding w1 by (simp add: lookupMark_setMark)
  have band: "(\<forall>i. inBand i (length hs) lo hi
                  \<longleftrightarrow> \<lceil>real (length hs) * lo\<rceil> \<le> int i \<and> int i < \<lceil>real (length hs) * hi\<rceil>)
      \<and> (\<lceil>real (length hs) * hi\<rceil> \<le> \<lceil>real (length hs) * lo\<rceil> \<longrightarrow> res = None)
      \<and> (\<lceil>real (length hs) * lo\<rceil> < \<lceil>real (length hs) * hi\<rceil> \<longrightarrow>
            inBand (nat \<lceil>real (length hs) * lo\<rceil>
                + nat \<lfloor>r * real (nat (\<lceil>real (length hs) * hi\<rceil> - \<lceil>real (length hs) * lo\<rceil>))\<rfloor>)
              (length hs) lo hi
            \<and> (\<forall>i. nat \<lfloor>r * real (nat (\<lceil>real (length hs) * hi\<rceil> - \<lceil>real (length hs) * lo\<rceil>))\<rfloor> = i
                   \<longleftrightarrow> real i / real (nat (\<lceil>real (length hs) * hi\<rceil> - \<lceil>real (length hs) * lo\<rceil>)) \<le> r
                     \<and> r < (real i + 1) / real (nat (\<lceil>real (length hs) * hi\<rceil> - \<lceil>real (length hs) * lo\<rceil>)))
            \<and> res = (if getMaxScoreProviderForSlot st
                     (slotId (hs ! (nat \<lceil>real (length hs) * lo\<rceil>
                        + nat \<lfloor>r * real (nat (\<lceil>real (length hs) * hi\<rceil> - \<lceil>real (length hs) * lo\<rceil>))\<rfloor>)))
                   = Inr (Some (providerId (hs ! (nat \<lceil>real (length hs) * lo\<rceil>
                        + nat \<lfloor>r * real (nat (\<lceil>real (length hs) * hi\<rceil> - \<lceil>real (length hs) * lo\<rceil>))\<rfloor>))))
                then Some (hs ! (nat \<lceil>real (length hs) * lo\<rceil>
                        + nat \<lfloor>r * real (nat (\<lceil>real (length hs) * hi\<rceil> - \<lceil>real (length hs) * lo\<rceil>))\<rfloor>))
                else None))"
    if r: "0 \<le> r" "r < 1" and b: "0 \<le> lo" "hi \<le> 1"
      and ids: "\<forall>e \<in> set hs. slotId e \<in> slot_id ` set timeSlots"
      and res: "selectRandomSlotFromRange st hs lo hi r = Inr res"
    for hs lo hi r res
  proof (intro conjI allI impI)
    fix i
    show "inBand i (length hs) lo hi
            \<longleftrightarrow> \<lceil>real (length hs) * lo\<rceil> \<le> int i \<and> int i < \<lceil>real (length hs) * hi\<rceil>"
      by (rule inBand_iff_ceiling [OF b(2)])
  next
    assume "\<lceil>real (length hs) * hi\<rceil> \<le> \<lceil>real (length hs) * lo\<rceil>"
    then show "res = None"
      using selectRandomSlotFromRange_empty_band [of hs hi lo st r] res by simp
  next
    assume lt: "\<lceil>real (length hs) * lo\<rceil> < \<lceil>real (length hs) * hi\<rceil>"
    show "inBand (nat \<lceil>real (length hs) * lo\<rceil>
                + nat \<lfloor>r * real (nat (\<lceil>real (length hs) * hi\<rceil> - \<lceil>real (length hs) * lo\<rceil>))\<rfloor>)
              (length hs) lo hi"
      by (rule selectRandomSlotFromRange_draw(1) [OF r b ids lt])
    show "res = (if getMaxScoreProviderForSlot st
                     (slotId (hs ! (nat \<lceil>real (length hs) * lo\<rceil>
                        + nat \<lfloor>r * real (nat (\<lceil>real (length hs) * hi\<rceil> - \<lceil>real (length hs) * lo\<rceil>))\<rfloor>)))
                   = Inr (Some (providerId (hs ! (nat \<lceil>real (length hs) * lo\<rceil>
                        + nat \<lfloor>r * real (nat (\<lceil>real (length hs) * hi\<rceil> - \<lceil>real (length hs) * lo\<rceil>))\<rfloor>))))
                then Some (hs ! (nat \<lceil>real (length hs) * lo\<rceil>
                        + nat \<lfloor>r * real (nat (\<lceil>real (length hs) * hi\<rceil> - \<lceil>real (length hs) * lo\<rceil>))\<rfloor>))
                else None)"
      using selectRandomSlotFromRange_draw(2) [OF r b ids lt, of st] res by simp
  next
    fix i
    assume lt: "\<lceil>real (length hs) * lo\<rceil> < \<lceil>real (length hs) * hi\<rceil>"
    then have "0 < nat (\<lceil>real (length hs) * hi\<rceil> - \<lceil>real (length hs) * lo\<rceil>)" by simp
    from random_index_uniform [OF r(1) this]
    show "nat \<lfloor>r * real (nat (\<lceil>real (length hs) * hi\<rceil> - \<lceil>real (length hs) * lo\<rceil>))\<rfloor> = i
          \<longleftrightarrow> real i / real (nat (\<lceil>real (length hs) * hi\<rceil> - \<lceil>real (length hs) * lo\<rceil>)) \<le> r
            \<and> r < (real i + 1) / real (nat (\<lceil>real (length hs) * hi\<rceil> - \<lceil>real (length hs) * lo\<rceil>))" .
  qed
  have ids1: "\<forall>e \<in> set (highlightedAfter1 it). slotId e \<in> slot_id ` set timeSlots"
    using getHighlightedSlots_entry [OF shape(4)] by blast
  have stage2: "let h1 = highlightedAfter1 it;
              lo = \<lceil>real (length h1) * (2 / 10)\<rceil>;
              hi = \<lceil>real (length h1) * (5 / 10)\<rceil>;
              m = nat (hi - lo);
              j = nat lo + nat \<lfloor>rnd2 * real m\<rfloor>
          in (\<forall>i. inBand i (length h1) (2 / 10) (5 / 10) \<longleftrightarrow> lo \<le> int i \<and> int i < hi)
             \<and> (hi \<le> lo \<longrightarrow> slot2 it = None)
             \<and> (lo < hi \<longrightarrow>
                   inBand j (length h1) (2 / 10) (5 / 10)
                   \<and> (\<forall>i. nat \<lfloor>rnd2 * real m\<rfloor> = i
                          \<longleftrightarrow> real i / real m \<le> rnd2 \<and> rnd2 < (real i + 1) / real m)
                   \<and> slot2 it
                       = (if getMaxScoreProviderForSlot st (slotId (h1 ! j))
                               = Inr (Some (providerId (h1 ! j)))
                          then Some (h1 ! j) else None))"
    unfolding Let_def by (rule band [OF assms(4,5) _ _ ids1 sel(1)]) simp_all
  have none3: "slot2 it = None \<longrightarrow> slot3 it = None" using shape(7) by blast
  have stage3: "\<forall>s2. slot2 it = Some s2 \<longrightarrow>
            workingState2 it = setMark (workingState1 it) (providerId s2) (slotId s2)
            \<and> lookupMark (workingState2 it) (providerId (slot1 it)) (slotId (slot1 it))
            \<and> lookupMark (workingState2 it) (providerId s2) (slotId s2)
            \<and> getHighlightedSlots st (workingState2 it) = Inr (highlightedAfter2 it)
            \<and> (let h2 = highlightedAfter2 it;
                    lo = \<lceil>real (length h2) * (5 / 10)\<rceil>;
                    hi = \<lceil>real (length h2) * (7 / 10)\<rceil>;
                    m = nat (hi - lo);
                    j = nat lo + nat \<lfloor>rnd3 * real m\<rfloor>
                in (\<forall>i. inBand i (length h2) (5 / 10) (7 / 10) \<longleftrightarrow> lo \<le> int i \<and> int i < hi)
                   \<and> (hi \<le> lo \<longrightarrow> slot3 it = None)
                   \<and> (lo < hi \<longrightarrow>
                         inBand j (length h2) (5 / 10) (7 / 10)
                         \<and> (\<forall>i. nat \<lfloor>rnd3 * real m\<rfloor> = i
                                \<longleftrightarrow> real i / real m \<le> rnd3 \<and> rnd3 < (real i + 1) / real m)
                         \<and> slot3 it
                             = (if getMaxScoreProviderForSlot st (slotId (h2 ! j))
                                     = Inr (Some (providerId (h2 ! j)))
                                then Some (h2 ! j) else None)))"
  proof (intro allI impI)
    fix s2 assume s2: "slot2 it = Some s2"
    have w2: "workingState2 it = setMark (workingState1 it) (providerId s2) (slotId s2)"
      using shape(5) s2 by (simp add: markSelection_def)
    have h2: "getHighlightedSlots st (workingState2 it) = Inr (highlightedAfter2 it)"
      using shape(6) s2 by simp
    have ids2: "\<forall>e \<in> set (highlightedAfter2 it). slotId e \<in> slot_id ` set timeSlots"
      using getHighlightedSlots_entry [OF h2] by blast
    have ma: "lookupMark (workingState2 it) (providerId (slot1 it)) (slotId (slot1 it))"
      unfolding w2 using m1 by (simp add: lookupMark_setMark)
    have mb: "lookupMark (workingState2 it) (providerId s2) (slotId s2)"
      unfolding w2 by (simp add: lookupMark_setMark)
    have b3: "let h2 = highlightedAfter2 it;
                    lo = \<lceil>real (length h2) * (5 / 10)\<rceil>;
                    hi = \<lceil>real (length h2) * (7 / 10)\<rceil>;
                    m = nat (hi - lo);
                    j = nat lo + nat \<lfloor>rnd3 * real m\<rfloor>
                in (\<forall>i. inBand i (length h2) (5 / 10) (7 / 10) \<longleftrightarrow> lo \<le> int i \<and> int i < hi)
                   \<and> (hi \<le> lo \<longrightarrow> slot3 it = None)
                   \<and> (lo < hi \<longrightarrow>
                         inBand j (length h2) (5 / 10) (7 / 10)
                         \<and> (\<forall>i. nat \<lfloor>rnd3 * real m\<rfloor> = i
                                \<longleftrightarrow> real i / real m \<le> rnd3 \<and> rnd3 < (real i + 1) / real m)
                         \<and> slot3 it
                             = (if getMaxScoreProviderForSlot st (slotId (h2 ! j))
                                     = Inr (Some (providerId (h2 ! j)))
                                then Some (h2 ! j) else None))"
      unfolding Let_def by (rule band [OF assms(6,7) _ _ ids2 sel(2)]) simp_all
    from w2 ma mb h2 b3
    show "workingState2 it = setMark (workingState1 it) (providerId s2) (slotId s2)
            \<and> lookupMark (workingState2 it) (providerId (slot1 it)) (slotId (slot1 it))
            \<and> lookupMark (workingState2 it) (providerId s2) (slotId s2)
            \<and> getHighlightedSlots st (workingState2 it) = Inr (highlightedAfter2 it)
            \<and> (let h2 = highlightedAfter2 it;
                    lo = \<lceil>real (length h2) * (5 / 10)\<rceil>;
                    hi = \<lceil>real (length h2) * (7 / 10)\<rceil>;
                    m = nat (hi - lo);
                    j = nat lo + nat \<lfloor>rnd3 * real m\<rfloor>
                in (\<forall>i. inBand i (length h2) (5 / 10) (7 / 10) \<longleftrightarrow> lo \<le> int i \<and> int i < hi)
                   \<and> (hi \<le> lo \<longrightarrow> slot3 it = None)
                   \<and> (lo < hi \<longrightarrow>
                         inBand j (length h2) (5 / 10) (7 / 10)
                         \<and> (\<forall>i. nat \<lfloor>rnd3 * real m\<rfloor> = i
                                \<longleftrightarrow> real i / real m \<le> rnd3 \<and> rnd3 < (real i + 1) / real m)
                         \<and> slot3 it
                             = (if getMaxScoreProviderForSlot st (slotId (h2 ! j))
                                     = Inr (Some (providerId (h2 ! j)))
                                then Some (h2 ! j) else None)))"
      by (intro conjI)
  qed
  have s3old: "\<forall>s. slot3 it = Some s \<longrightarrow>
             slot2 it \<noteq> None
             \<and> (\<exists>j. inBand j (length (highlightedAfter2 it)) (5 / 10) (7 / 10)
                  \<and> s = highlightedAfter2 it ! j)"
    using shape(7,10) by (cases "slot2 it = None") auto
  show ?thesis
  proof (intro exI conjI)
    show "runSimulationIteration st rnd1 rnd2 rnd3 = Inr (st', Some it)" by (rule run)
  qed (fact shape(1) stage1 w1 m1 shape(4) stage2 none3 stage3 shape(8) shape(9) s3old)+
qed

theorem iteration_samples_from_bands_witness:
  "\<not> simulationInProgress initialState
   \<and> getCurrentHighlighted initialState = Inr (highlightedList (resolvedProvider initialState))
   \<and> highlightedList (resolvedProvider initialState) \<noteq> []
   \<and> runSimulationIteration initialState 0 0 0 =
       Inr (initialState\<lparr>newlySelectedSlots := [],
              pendingSelectionSlots := [(4, [(''10-0'', True), (''10-40'', True), (''11-30'', True)])],
              simulationInProgress := True\<rparr>,
            Some \<lparr>highlightedSlots = highlightedList (resolvedProvider initialState),
                  slot1 = \<lparr>slotId = ''10-0'', providerId = 4, timeIndex = 0\<rparr>,
                  workingState1 = selectedSlots oneCommitted,
                  highlightedAfter1 = highlightedList (resolvedProvider oneCommitted),
                  slot2 = Some \<lparr>slotId = ''10-40'', providerId = 4, timeIndex = 4\<rparr>,
                  workingState2 = selectedSlots twoCommitted,
                  highlightedAfter2 = highlightedList (resolvedProvider twoCommitted),
                  slot3 = Some \<lparr>slotId = ''11-30'', providerId = 4, timeIndex = 9\<rparr>\<rparr>)
   \<and> nat (max 1 \<lceil>real (length (highlightedList (resolvedProvider initialState))) * (2 / 10)\<rceil>) = 4
   \<and> \<lparr>slotId = ''10-0'', providerId = 4, timeIndex = 0\<rparr>
       = highlightedList (resolvedProvider initialState) ! 0
   \<and> lookupMark (selectedSlots oneCommitted) 4 ''10-0''
   \<and> inBand 4 18 (2 / 10) (5 / 10)
   \<and> Some \<lparr>slotId = ''10-40'', providerId = 4, timeIndex = 4\<rparr>
       = Some (highlightedList (resolvedProvider oneCommitted) ! 4)
   \<and> inBand 9 18 (5 / 10) (7 / 10)
   \<and> Some \<lparr>slotId = ''11-30'', providerId = 4, timeIndex = 9\<rparr>
       = Some (highlightedList (resolvedProvider twoCommitted) ! 9)"
proof -
  let ?h0 = "highlightedList (resolvedProvider initialState)"
  let ?h1 = "highlightedList (resolvedProvider oneCommitted)"
  let ?h2 = "highlightedList (resolvedProvider twoCommitted)"
  have idle: "\<not> simulationInProgress initialState" by (simp add: initialState_fields)
  have ne: "?h0 \<noteq> []" by (rule highlightedList_nonempty)
  have z: "(0::real) \<le> 0" "(0::real) < 1" by simp_all
  from iteration_samples_from_bands [OF idle z z z initialState_highlighted ne]
  obtain st' it where run: "runSimulationIteration initialState 0 0 0 = Inr (st', Some it)"
    and s1: "slot1 it = ?h0 ! nat \<lfloor>0 * real (nat (max 1 \<lceil>real (length ?h0) * (2 / 10)\<rceil>))\<rfloor>"
    and m1: "lookupMark (workingState1 it) (providerId (slot1 it)) (slotId (slot1 it))"
    and s2: "\<lceil>real (length (highlightedAfter1 it)) * (2 / 10)\<rceil>
               < \<lceil>real (length (highlightedAfter1 it)) * (5 / 10)\<rceil> \<longrightarrow>
             inBand (nat \<lceil>real (length (highlightedAfter1 it)) * (2 / 10)\<rceil>
                     + nat \<lfloor>0 * real (nat (\<lceil>real (length (highlightedAfter1 it)) * (5 / 10)\<rceil>
                                  - \<lceil>real (length (highlightedAfter1 it)) * (2 / 10)\<rceil>))\<rfloor>)
               (length (highlightedAfter1 it)) (2 / 10) (5 / 10)
             \<and> slot2 it
                 = (if getMaxScoreProviderForSlot initialState
                        (slotId (highlightedAfter1 it !
                           (nat \<lceil>real (length (highlightedAfter1 it)) * (2 / 10)\<rceil>
                            + nat \<lfloor>0 * real (nat (\<lceil>real (length (highlightedAfter1 it)) * (5 / 10)\<rceil>
                                  - \<lceil>real (length (highlightedAfter1 it)) * (2 / 10)\<rceil>))\<rfloor>)))
                      = Inr (Some (providerId (highlightedAfter1 it !
                           (nat \<lceil>real (length (highlightedAfter1 it)) * (2 / 10)\<rceil>
                            + nat \<lfloor>0 * real (nat (\<lceil>real (length (highlightedAfter1 it)) * (5 / 10)\<rceil>
                                  - \<lceil>real (length (highlightedAfter1 it)) * (2 / 10)\<rceil>))\<rfloor>))))
                    then Some (highlightedAfter1 it !
                           (nat \<lceil>real (length (highlightedAfter1 it)) * (2 / 10)\<rceil>
                            + nat \<lfloor>0 * real (nat (\<lceil>real (length (highlightedAfter1 it)) * (5 / 10)\<rceil>
                                  - \<lceil>real (length (highlightedAfter1 it)) * (2 / 10)\<rceil>))\<rfloor>))
                    else None)"
    and s3: "\<forall>s2. slot2 it = Some s2 \<longrightarrow>
             (\<lceil>real (length (highlightedAfter2 it)) * (5 / 10)\<rceil>
               < \<lceil>real (length (highlightedAfter2 it)) * (7 / 10)\<rceil> \<longrightarrow>
             inBand (nat \<lceil>real (length (highlightedAfter2 it)) * (5 / 10)\<rceil>
                     + nat \<lfloor>0 * real (nat (\<lceil>real (length (highlightedAfter2 it)) * (7 / 10)\<rceil>
                                  - \<lceil>real (length (highlightedAfter2 it)) * (5 / 10)\<rceil>))\<rfloor>)
               (length (highlightedAfter2 it)) (5 / 10) (7 / 10)
             \<and> slot3 it
                 = (if getMaxScoreProviderForSlot initialState
                        (slotId (highlightedAfter2 it !
                           (nat \<lceil>real (length (highlightedAfter2 it)) * (5 / 10)\<rceil>
                            + nat \<lfloor>0 * real (nat (\<lceil>real (length (highlightedAfter2 it)) * (7 / 10)\<rceil>
                                  - \<lceil>real (length (highlightedAfter2 it)) * (5 / 10)\<rceil>))\<rfloor>)))
                      = Inr (Some (providerId (highlightedAfter2 it !
                           (nat \<lceil>real (length (highlightedAfter2 it)) * (5 / 10)\<rceil>
                            + nat \<lfloor>0 * real (nat (\<lceil>real (length (highlightedAfter2 it)) * (7 / 10)\<rceil>
                                  - \<lceil>real (length (highlightedAfter2 it)) * (5 / 10)\<rceil>))\<rfloor>))))
                    then Some (highlightedAfter2 it !
                           (nat \<lceil>real (length (highlightedAfter2 it)) * (5 / 10)\<rceil>
                            + nat \<lfloor>0 * real (nat (\<lceil>real (length (highlightedAfter2 it)) * (7 / 10)\<rceil>
                                  - \<lceil>real (length (highlightedAfter2 it)) * (5 / 10)\<rceil>))\<rfloor>))
                    else None))"
    unfolding Let_def by blast
  from run have it: "it = \<lparr>highlightedSlots = highlightedList (resolvedProvider initialState),
                slot1 = \<lparr>slotId = ''10-0'', providerId = 4, timeIndex = 0\<rparr>,
                workingState1 = selectedSlots oneCommitted,
                highlightedAfter1 = highlightedList (resolvedProvider oneCommitted),
                slot2 = Some \<lparr>slotId = ''10-40'', providerId = 4, timeIndex = 4\<rparr>,
                workingState2 = selectedSlots twoCommitted,
                highlightedAfter2 = highlightedList (resolvedProvider twoCommitted),
                slot3 = Some \<lparr>slotId = ''11-30'', providerId = 4, timeIndex = 9\<rparr>\<rparr>"
    by (simp add: initialState_run)
  have k: "nat (max 1 \<lceil>real (length ?h0) * (2 / 10)\<rceil>) = 4"
    by (simp add: length_highlightedList)
  have a: "\<lparr>slotId = ''10-0'', providerId = 4, timeIndex = 0\<rparr> = ?h0 ! 0"
    using s1 by (simp add: it)
  have b: "lookupMark (selectedSlots oneCommitted) 4 ''10-0''"
    using m1 by (simp add: it)
  have h1: "highlightedAfter1 it = ?h1" and h2: "highlightedAfter2 it = ?h2"
    by (simp_all add: it)
  have len: "length (highlightedAfter1 it) = 18" "length (highlightedAfter2 it) = 18"
    by (simp_all add: h1 h2 length_highlightedList)
  have ar: "\<lceil>real 18 * (2 / 10)\<rceil> = 4" "\<lceil>real 18 * (5 / 10)\<rceil> = 9"
    "\<lceil>real 18 * (7 / 10)\<rceil> = 13"
    "nat (4::int) + nat \<lfloor>0 * real (nat (9 - 4))\<rfloor> = 4"
    "nat (9::int) + nat \<lfloor>0 * real (nat (13 - 9))\<rfloor> = 9"
    "(4::int) < 9 \<longleftrightarrow> True" "(9::int) < 13 \<longleftrightarrow> True"
    by simp_all
  have sel2: "slot2 it = Some \<lparr>slotId = ''10-40'', providerId = 4, timeIndex = 4\<rparr>"
    and sel3: "slot3 it = Some \<lparr>slotId = ''11-30'', providerId = 4, timeIndex = 9\<rparr>"
    by (simp_all add: it)
  note t2 = s2 [unfolded h1 sel2 length_highlightedList ar simp_thms]
  note t3 = s3 [rule_format, OF sel2, unfolded h2 sel3 length_highlightedList ar simp_thms]
  have pick: "Some e = Some x" if "Some e = (if C then Some x else None)"
    for e x :: highlighted and C
    using that by (simp split: if_splits)
  have c1: "inBand 4 18 (2 / 10) (5 / 10)" using t2 by (rule conjunct1)
  have c2: "Some \<lparr>slotId = ''10-40'', providerId = 4, timeIndex = 4\<rparr> = Some (?h1 ! 4)"
    using t2 [THEN conjunct2] by (rule pick)
  have d1: "inBand 9 18 (5 / 10) (7 / 10)" using t3 [OF TrueI] by (rule conjunct1)
  have d2: "Some \<lparr>slotId = ''11-30'', providerId = 4, timeIndex = 9\<rparr> = Some (?h2 ! 9)"
    using t3 [OF TrueI, THEN conjunct2] by (rule pick)
  show ?thesis
    by (intro conjI) (fact idle initialState_highlighted ne initialState_run k a b c1 c2 d1 d2)+
qed

subsection \<open>Which store each stage reads\<close>

text \<open>
  C5, as the code has it. In an iteration that starts, the list \<open>H1\<close> of stage 2 is the
  resolver's output on a working store that holds stage 1's commitment, and the list
  \<open>H2\<close> of stage 3 is the resolver's output on a working store that holds the
  commitments of stages 1 and 2. The check applied to the sampled entry, in every
  stage, reads the store of the current render, the one before the iteration: an entry
  is selected only when the resolver on that store returns the entry's provider for the
  entry's slot. (No provider has capacity 0, as in the provider list of the program.)
\<close>

theorem iteration_resolution_states:
  assumes "\<not> simulationInProgress st"
    and "0 \<le> rnd1" "rnd1 < 1" and "0 \<le> rnd2" "rnd2 < 1" and "0 \<le> rnd3" "rnd3 < 1"
    and "getCurrentHighlighted st = Inr h0" "h0 \<noteq> []"
    and "\<forall>p \<in> set (providers st). licenses p \<noteq> 0"
  shows "\<exists>st' it. runSimulationIteration st rnd1 rnd2 rnd3 = Inr (st', Some it)
      \<and> highlightedSlots it = h0
      \<and> workingState1 it = setMark (selectedSlots st) (providerId (slot1 it)) (slotId (slot1 it))
      \<and> lookupMark (workingState1 it) (providerId (slot1 it)) (slotId (slot1 it))
      \<and> getCurrentHighlighted (st\<lparr>selectedSlots := workingState1 it\<rparr>) = Inr (highlightedAfter1 it)
      \<and> (\<forall>s. slot2 it = Some s \<longrightarrow>
             workingState2 it = setMark (workingState1 it) (providerId s) (slotId s)
             \<and> lookupMark (workingState2 it) (providerId (slot1 it)) (slotId (slot1 it))
             \<and> lookupMark (workingState2 it) (providerId s) (slotId s)
             \<and> getCurrentHighlighted (st\<lparr>selectedSlots := workingState2 it\<rparr>)
                 = Inr (highlightedAfter2 it))
      \<and> getMaxScoreProviderForSlot st (slotId (slot1 it)) = Inr (Some (providerId (slot1 it)))
      \<and> (\<forall>s. slot2 it = Some s \<longrightarrow>
             getMaxScoreProviderForSlot st (slotId s) = Inr (Some (providerId s)))
      \<and> (\<forall>s. slot3 it = Some s \<longrightarrow>
             getMaxScoreProviderForSlot st (slotId s) = Inr (Some (providerId s)))"
proof -
  let ?k = "nat (max 1 \<lceil>real (length h0) * (2 / 10)\<rceil>)"
  let ?s1 = "h0 ! nat \<lfloor>rnd1 * real ?k\<rfloor>"
  obtain st' it where run: "runSimulationIteration st rnd1 rnd2 rnd3 = Inr (st', Some it)"
      and plan: "planAfterFirst st h0 ?s1 rnd2 rnd3 = Inr it"
    using runSimulationIteration_shape [OF assms(1-9)] by blast
  have ok: "\<forall>e \<in> set h0. slotId e \<in> slot_id ` set timeSlots
               \<and> getMaxScoreProviderForSlot st (slotId e) = Inr (Some (providerId e))"
    using getCurrentHighlighted_entry [OF assms(8)] by blast
  have k: "?k \<le> length h0" "nat \<lfloor>rnd1 * real ?k\<rfloor> < ?k"
    using selectRandomSlotFromFirstPercent_result(1,2) [OF assms(2,3) assms(9) _ ok, of "2 / 10"]
    by simp_all
  then have "?s1 \<in> set h0" by (intro nth_mem) linarith
  with ok have c1: "getMaxScoreProviderForSlot st (slotId ?s1) = Inr (Some (providerId ?s1))"
    by blast
  from planAfterFirst_shape [OF assms(4-7), of st h0 ?s1] plan
  have shape: "highlightedSlots it = h0" "slot1 it = ?s1"
      "workingState1 it = setMark (selectedSlots st) (providerId ?s1) (slotId ?s1)"
      "getHighlightedSlots st (workingState1 it) = Inr (highlightedAfter1 it)"
      "workingState2 it = markSelection (workingState1 it) (slot2 it)"
      "slot2 it \<noteq> None \<longrightarrow> getHighlightedSlots st (workingState2 it) = Inr (highlightedAfter2 it)"
      "\<forall>s. slot2 it = Some s \<longrightarrow>
             getMaxScoreProviderForSlot st (slotId s) = Inr (Some (providerId s))"
      "\<forall>s. slot3 it = Some s \<longrightarrow>
             getMaxScoreProviderForSlot st (slotId s) = Inr (Some (providerId s))"
    by auto
  note eq = getHighlightedSlots_eq_getCurrentHighlighted [OF assms(10)]
  have w1: "workingState1 it = setMark (selectedSlots st) (providerId (slot1 it)) (slotId (slot1 it))"
    using shape(2,3) by simp
  have m1: "lookupMark (workingState1 it) (providerId (slot1 it)) (slotId (slot1 it))"
    unfolding w1 by (simp add: lookupMark_setMark)
  have s2: "\<forall>s. slot2 it = Some s \<longrightarrow>
             workingState2 it = setMark (workingState1 it) (providerId s) (slotId s)
             \<and> lookupMark (workingState2 it) (providerId (slot1 it)) (slotId (slot1 it))
             \<and> lookupMark (workingState2 it) (providerId s) (slotId s)
             \<and> getCurrentHighlighted (st\<lparr>selectedSlots := workingState2 it\<rparr>)
                 = Inr (highlightedAfter2 it)"
  proof (intro allI impI)
    fix s assume s: "slot2 it = Some s"
    then have w2: "workingState2 it = setMark (workingState1 it) (providerId s) (slotId s)"
      using shape(5) by (simp add: markSelection_def)
    have "getHighlightedSlots st (workingState2 it) = Inr (highlightedAfter2 it)"
      using s shape(6) by simp
    then show "workingState2 it = setMark (workingState1 it) (providerId s) (slotId s)
             \<and> lookupMark (workingState2 it) (providerId (slot1 it)) (slotId (slot1 it))
             \<and> lookupMark (workingState2 it) (providerId s) (slotId s)
             \<and> getCurrentHighlighted (st\<lparr>selectedSlots := workingState2 it\<rparr>)
                 = Inr (highlightedAfter2 it)"
      using w2 m1 by (simp add: lookupMark_setMark eq)
  qed
  have h1: "getCurrentHighlighted (st\<lparr>selectedSlots := workingState1 it\<rparr>)
            = Inr (highlightedAfter1 it)"
    using shape(4) by (simp add: eq)
  have c1': "getMaxScoreProviderForSlot st (slotId (slot1 it)) = Inr (Some (providerId (slot1 it)))"
    using c1 shape(2) by simp
  from run shape(1) w1 m1 h1 s2 c1' shape(7) shape(8) show ?thesis by blast
qed

theorem iteration_resolution_states_witness:
  "\<not> simulationInProgress initialState
   \<and> getCurrentHighlighted initialState = Inr (highlightedList (resolvedProvider initialState))
   \<and> highlightedList (resolvedProvider initialState) \<noteq> []
   \<and> list_all (\<lambda>p. licenses p \<noteq> 0) (providers initialState)
   \<and> selectedSlots oneCommitted = setMark (selectedSlots initialState) 4 ''10-0''
   \<and> getCurrentHighlighted (initialState\<lparr>selectedSlots := selectedSlots oneCommitted\<rparr>)
       = Inr (highlightedList (resolvedProvider oneCommitted))
   \<and> selectedSlots twoCommitted = setMark (selectedSlots oneCommitted) 4 ''10-40''
   \<and> lookupMark (selectedSlots twoCommitted) 4 ''10-0''
   \<and> lookupMark (selectedSlots twoCommitted) 4 ''10-40''
   \<and> getCurrentHighlighted (initialState\<lparr>selectedSlots := selectedSlots twoCommitted\<rparr>)
       = Inr (highlightedList (resolvedProvider twoCommitted))
   \<and> getMaxScoreProviderForSlot initialState ''10-0'' = Inr (Some 4)
   \<and> getMaxScoreProviderForSlot initialState ''10-40'' = Inr (Some 4)
   \<and> getMaxScoreProviderForSlot initialState ''11-30'' = Inr (Some 4)"
proof -
  let ?h0 = "highlightedList (resolvedProvider initialState)"
  have idle: "\<not> simulationInProgress initialState" by (simp add: initialState_fields)
  have ne: "?h0 \<noteq> []" by (rule highlightedList_nonempty)
  have lic: "\<forall>p \<in> set (providers initialState). licenses p \<noteq> 0"
    by (simp add: initialState_fields initialProviders_def)
  have z: "(0::real) \<le> 0" "(0::real) < 1" by simp_all
  from iteration_resolution_states [OF idle z z z initialState_highlighted ne lic]
  obtain st' it where run: "runSimulationIteration initialState 0 0 0 = Inr (st', Some it)"
    and w1: "workingState1 it
               = setMark (selectedSlots initialState) (providerId (slot1 it)) (slotId (slot1 it))"
    and h1: "getCurrentHighlighted (initialState\<lparr>selectedSlots := workingState1 it\<rparr>)
               = Inr (highlightedAfter1 it)"
    and s2: "\<forall>s. slot2 it = Some s \<longrightarrow>
             workingState2 it = setMark (workingState1 it) (providerId s) (slotId s)
             \<and> lookupMark (workingState2 it) (providerId (slot1 it)) (slotId (slot1 it))
             \<and> lookupMark (workingState2 it) (providerId s) (slotId s)
             \<and> getCurrentHighlighted (initialState\<lparr>selectedSlots := workingState2 it\<rparr>)
                 = Inr (highlightedAfter2 it)"
    and k1: "getMaxScoreProviderForSlot initialState (slotId (slot1 it))
               = Inr (Some (providerId (slot1 it)))"
    and k2: "\<forall>s. slot2 it = Some s \<longrightarrow>
             getMaxScoreProviderForSlot initialState (slotId s) = Inr (Some (providerId s))"
    and k3: "\<forall>s. slot3 it = Some s \<longrightarrow>
             getMaxScoreProviderForSlot initialState (slotId s) = Inr (Some (providerId s))"
    by blast
  from run have it: "it = \<lparr>highlightedSlots = highlightedList (resolvedProvider initialState),
                slot1 = \<lparr>slotId = ''10-0'', providerId = 4, timeIndex = 0\<rparr>,
                workingState1 = selectedSlots oneCommitted,
                highlightedAfter1 = highlightedList (resolvedProvider oneCommitted),
                slot2 = Some \<lparr>slotId = ''10-40'', providerId = 4, timeIndex = 4\<rparr>,
                workingState2 = selectedSlots twoCommitted,
                highlightedAfter2 = highlightedList (resolvedProvider twoCommitted),
                slot3 = Some \<lparr>slotId = ''11-30'', providerId = 4, timeIndex = 9\<rparr>\<rparr>"
    by (simp add: initialState_run)
  have a: "selectedSlots oneCommitted = setMark (selectedSlots initialState) 4 ''10-0''"
    using w1 by (simp add: it)
  have b: "getCurrentHighlighted (initialState\<lparr>selectedSlots := selectedSlots oneCommitted\<rparr>)
       = Inr (highlightedList (resolvedProvider oneCommitted))"
    using h1 by (simp add: it)
  have sel2: "slot2 it = Some \<lparr>slotId = ''10-40'', providerId = 4, timeIndex = 4\<rparr>"
    by (simp add: it)
  note s2' = s2 [rule_format, OF sel2]
  have c1: "selectedSlots twoCommitted = setMark (selectedSlots oneCommitted) 4 ''10-40''"
    using s2' [THEN conjunct1] by (simp add: it)
  have c2: "lookupMark (selectedSlots twoCommitted) 4 ''10-0''"
    using s2' [THEN conjunct2, THEN conjunct1] by (simp add: it)
  have c3: "lookupMark (selectedSlots twoCommitted) 4 ''10-40''"
    using s2' [THEN conjunct2, THEN conjunct2, THEN conjunct1] by (simp add: it)
  have c4: "getCurrentHighlighted (initialState\<lparr>selectedSlots := selectedSlots twoCommitted\<rparr>)
           = Inr (highlightedList (resolvedProvider twoCommitted))"
    using s2' [THEN conjunct2, THEN conjunct2, THEN conjunct2] by (simp add: it)
  have d: "getMaxScoreProviderForSlot initialState ''10-0'' = Inr (Some 4)"
    using k1 by (simp add: it)
  have e: "getMaxScoreProviderForSlot initialState ''10-40'' = Inr (Some 4)"
    using k2 by (simp add: it)
  have f: "getMaxScoreProviderForSlot initialState ''11-30'' = Inr (Some 4)"
    using k3 by (simp add: it)
  have l: "list_all (\<lambda>p. licenses p \<noteq> 0) (providers initialState)"
    using lic by (simp add: list_all_iff)
  from idle initialState_highlighted ne l a b c1 c2 c3 c4 d e f show ?thesis by blast
qed

text \<open>
  C5, as stated, fails for the check. In \<open>staleCheckState\<close> provider 4 is the
  highlighted one of the slot 10-40; stage 1 commits 10-0 to provider 4 in the working
  store, which lowers its score below that of providers 3, 5, 6 and 7, so that \<open>H1\<close>
  gives the slot 10-40, the first entry of the band, to provider 6. The check reads the
  store of the render, where the slot still resolves to provider 4, and stage 2 selects
  nothing; read on the working store the same sample would have been selected.
\<close>

theorem stage2_check_reads_store_of_render:
  "runSimulationIteration staleCheckState 0 0 0 =
     Inr (staleCheckState\<lparr>newlySelectedSlots := [],
            pendingSelectionSlots := [(4, [(''10-0'', True)])],
            simulationInProgress := True\<rparr>,
          Some \<lparr>highlightedSlots = highlightedList (resolvedProvider staleCheckState),
                slot1 = \<lparr>slotId = ''10-0'', providerId = 4, timeIndex = 0\<rparr>,
                workingState1 = selectedSlots staleAfterFirst,
                highlightedAfter1 = highlightedList (resolvedProvider staleAfterFirst),
                slot2 = None,
                workingState2 = selectedSlots staleAfterFirst,
                highlightedAfter2 = [],
                slot3 = None\<rparr>)
   \<and> selectedSlots staleAfterFirst = setMark (selectedSlots staleCheckState) 4 ''10-0''
   \<and> inBand 4 (length (highlightedList (resolvedProvider staleAfterFirst))) (2 / 10) (5 / 10)
   \<and> highlightedList (resolvedProvider staleAfterFirst) ! 4
       = \<lparr>slotId = ''10-40'', providerId = 6, timeIndex = 4\<rparr>
   \<and> getMaxScoreProviderForSlot staleAfterFirst ''10-40'' = Inr (Some 6)
   \<and> getMaxScoreProviderForSlot staleCheckState ''10-40'' = Inr (Some 4)
   \<and> selectRandomSlotFromRange staleCheckState
         (highlightedList (resolvedProvider staleAfterFirst)) (2 / 10) (5 / 10) 0 = Inr None
   \<and> selectRandomSlotFromRange staleAfterFirst
         (highlightedList (resolvedProvider staleAfterFirst)) (2 / 10) (5 / 10) 0
       = Inr (Some \<lparr>slotId = ''10-40'', providerId = 6, timeIndex = 4\<rparr>)"
proof -
  have r: "resolvedProvider staleAfterFirst ''10-40'' = 6"
    by (rule resolvedProvider_eq [OF staleAfterFirst_resolved])
  have a: "selectedSlots staleAfterFirst = setMark (selectedSlots staleCheckState) 4 ''10-0''"
    by (simp add: staleAfterFirst_def)
  have b: "inBand 4 (length (highlightedList (resolvedProvider staleAfterFirst))) (2 / 10) (5 / 10)"
    by (simp add: inBand_def length_highlightedList)
  have c: "highlightedList (resolvedProvider staleAfterFirst) ! 4
       = \<lparr>slotId = ''10-40'', providerId = 6, timeIndex = 4\<rparr>"
    by (simp add: highlightedList_def r)
  have d: "selectRandomSlotFromRange staleCheckState
         (highlightedList (resolvedProvider staleAfterFirst)) (2 / 10) (5 / 10) 0 = Inr None"
    using second_pick_zero [of staleCheckState "resolvedProvider staleAfterFirst"]
    by (simp add: staleCheckState_first r)
  have e: "selectRandomSlotFromRange staleAfterFirst
         (highlightedList (resolvedProvider staleAfterFirst)) (2 / 10) (5 / 10) 0
       = Inr (Some \<lparr>slotId = ''10-40'', providerId = 6, timeIndex = 4\<rparr>)"
    using second_pick_zero [of staleAfterFirst "resolvedProvider staleAfterFirst"]
    by (simp add: staleAfterFirst_resolved r)
  from staleCheckState_run a b c staleAfterFirst_resolved staleCheckState_first(2) d e
  show ?thesis by blast
qed

end
